theory Spec2Isabelle
  imports Complex_Main "HOL-Library.Word"
begin

unbundle bit_operations_syntax

section \<open>Machine integers and C library helpers\<close>

type_synonym u8 = "8 word"
type_synonym u16 = "16 word"
type_synonym u32 = "32 word"
type_synonym u64 = "64 word"

text \<open>
  Faults of the C++ program that are not return values: an integer division by zero
  and a read of a variable that was never assigned.
\<close>

datatype fault = DivByZero | Uninitialized

text \<open>POSIX error numbers used by the readers (returned negated).\<close>

definition EIO :: int where "EIO = 5"
definition EBADF :: int where "EBADF = 9"

subsection \<open>Decimal and hexadecimal output of \<open>printf\<close>\<close>

definition digit_char :: "nat \<Rightarrow> char" where
  "digit_char d = char_of (48 + d)"

fun dec :: "nat \<Rightarrow> string" where
  "dec n = (if n < 10 then [digit_char n] else dec (n div 10) @ [digit_char (n mod 10)])"

declare dec.simps [simp del]

text \<open>Minimum field width with zero padding, as in \<open>%02u\<close>.\<close>

definition pad0 :: "nat \<Rightarrow> string \<Rightarrow> string" where
  "pad0 w s = replicate (w - length s) (CHR ''0'') @ s"

definition hex_char :: "nat \<Rightarrow> char" where
  "hex_char d = (if d < 10 then char_of (48 + d) else char_of (55 + d))"

fun hex :: "nat \<Rightarrow> string" where
  "hex n = (if n < 16 then [hex_char n] else hex (n div 16) @ [hex_char (n mod 16)])"

declare hex.simps [simp del]

subsection \<open>Single-precision arithmetic\<close>

text \<open>
  The two sample converters compute a fraction in \<open>float\<close>. The values involved are
  positive, finite and normal, so a \<open>float\<close> is modelled by the rational it denotes, and
  every conversion and operation rounds its exact result to 24 significant bits, ties
  to even (IEEE 754 binary32, each operation evaluated in single precision).
\<close>

fun bit_length :: "nat \<Rightarrow> nat" where
  "bit_length n = (if n = 0 then 0 else Suc (bit_length (n div 2)))"

declare bit_length.simps [simp del]

definition pow2 :: "int \<Rightarrow> rat" where
  "pow2 e = (if 0 \<le> e then 2 ^ nat e else 1 / 2 ^ nat (- e))"

text \<open>The binary exponent \<open>e\<close> of a positive rational: \<open>2^e \<le> q < 2^(e+1)\<close>.\<close>

definition ilog2 :: "rat \<Rightarrow> int" where
  "ilog2 q = (if 1 \<le> q then int (bit_length (nat \<lfloor>q\<rfloor>)) - 1
              else - int (bit_length (nat (\<lceil>1 / q\<rceil> - 1))))"

definition round_even :: "rat \<Rightarrow> int" where
  "round_even q =
     (let f = \<lfloor>q\<rfloor>; d = q - of_int f
      in if d < 1 / 2 then f
         else if 1 / 2 < d then f + 1
         else if even f then f else f + 1)"

definition round_f32 :: "rat \<Rightarrow> rat" where
  "round_f32 q =
     (if q \<le> 0 then 0
      else let ulp = pow2 (ilog2 q - 23) in of_int (round_even (q / ulp)) * ulp)"

definition float_of_uint :: "u32 \<Rightarrow> rat" where
  "float_of_uint x = round_f32 (of_nat (unat x))"

definition fdiv :: "rat \<Rightarrow> rat \<Rightarrow> rat" where
  "fdiv a b = round_f32 (a / b)"

definition fmul :: "rat \<Rightarrow> rat \<Rightarrow> rat" where
  "fmul a b = round_f32 (a * b)"

text \<open>\<open>static_cast<unsigned int>\<close> of a non-negative \<open>float\<close> in range: truncation.\<close>

definition uint_of_float :: "rat \<Rightarrow> u32" where
  "uint_of_float q = word_of_int \<lfloor>q\<rfloor>"

section \<open>TextFuncs.cpp: audio functions\<close>

text \<open>
  \<open>formatSampleAsTime(sample, rate)\<close> formats a sample value as \<open>m:ss.cs\<close>. The
  assertion \<open>assert(rate != 0)\<close> is compiled out (\<open>NDEBUG\<close>); the explicit test that
  follows it is the branch modelled. The buffer holds 32 bytes, so at most 31 characters
  are returned.
\<close>

definition formatSampleAsTime :: "u32 \<Rightarrow> u32 \<Rightarrow> string" where
  "formatSampleAsTime sample rate =
     (if rate = 0 then ''#DIV/0!''
      else
        let cs_frames = sample mod rate;
            cs = (if cs_frames \<noteq> 0
                  then uint_of_float (fmul (fdiv (float_of_uint cs_frames) (float_of_uint rate)) 100)
                  else 0);
            sec0 = sample div rate;
            min' = sec0 div 60;
            sec' = sec0 mod 60;
            buf = dec (unat min') @ '':'' @ pad0 2 (dec (unat sec')) @ ''.'' @ pad0 2 (dec (unat cs))
        in take 31 buf)"

text \<open>
  \<open>convSampleToMs(sample, rate)\<close> starts with \<open>sample % rate\<close> and has no test of
  \<open>rate\<close>: with a zero rate the unsigned remainder is a division by zero, which the
  model returns as a fault.
\<close>

definition convSampleToMs :: "u32 \<Rightarrow> u32 \<Rightarrow> fault + u32" where
  "convSampleToMs sample rate =
     (if rate = 0 then Inl DivByZero
      else
        let ms_frames = sample mod rate;
            ms = (if ms_frames \<noteq> 0
                  then uint_of_float (fmul (fdiv (float_of_uint ms_frames) (float_of_uint rate)) 1000)
                  else 0);
            sec' = sample div rate
        in Inr (sec' * 1000 + ms))"


section \<open>C strings and \<open>sscanf\<close>\<close>

text \<open>
  A \<open>char\<close> is one byte. A C string ends at its first NUL byte; \<open>c_str\<close> gives the
  characters a \<open>const char *\<close> reader sees.
\<close>

definition c_str :: "string \<Rightarrow> string" where
  "c_str s = takeWhile (\<lambda>c. c \<noteq> CHR 0x00) s"

definition isspace_c :: "char \<Rightarrow> bool" where
  "isspace_c c = ((of_char c :: nat) \<in> set [9, 10, 11, 12, 13, 32])"

definition ISDIGIT :: "char \<Rightarrow> bool" where
  "ISDIGIT c = (48 \<le> (of_char c :: nat) \<and> (of_char c :: nat) \<le> 57)"

definition tolower_c :: "char \<Rightarrow> char" where
  "tolower_c c = (if 65 \<le> (of_char c :: nat) \<and> (of_char c :: nat) \<le> 90
                  then char_of ((of_char c :: nat) + 32) else c)"

definition dec_value :: "string \<Rightarrow> int" where
  "dec_value ds = foldl (\<lambda>a c. 10 * a + ((of_char c :: int) - 48)) 0 ds"

text \<open>\<open>strchr(s, c)\<close>: the suffix starting at the first occurrence, or a null pointer.\<close>

definition strchr :: "string \<Rightarrow> char \<Rightarrow> string option" where
  "strchr s c = (if c \<in> set s then Some (dropWhile (\<lambda>x. x \<noteq> c) s) else None)"

text \<open>
  The formats used by \<open>lengthToMs\<close> consist of \<open>%u\<close> conversions and ordinary
  characters. A \<open>%u\<close> skips white space, takes an optional sign and then decimal digits
  (as \<open>strtoul\<close> does, a minus sign negating in unsigned arithmetic); the value is
  stored in an \<open>unsigned int\<close>. C leaves a value out of range undefined; the model
  follows the C library of a 64-bit Linux host, where the conversion is made in
  \<open>unsigned long\<close>, a number of \<open>2^64\<close> or more giving its largest value, and the store
  keeps the low 32 bits. An ordinary character must match the next input character.
  \<open>sscanf\<close> stores each converted value as soon as it is converted and returns the
  number of values stored, or \<open>EOF\<close> when the input ends before the first conversion.
\<close>

datatype directive = ConvU | Lit char

fun parse_format :: "string \<Rightarrow> directive list" where
  "parse_format [] = []"
| "parse_format [c] = [Lit c]"
| "parse_format (c # d # fs) =
     (if c = CHR ''%'' \<and> d = CHR ''u'' then ConvU # parse_format fs
      else Lit c # parse_format (d # fs))"

datatype conv = Matched u32 string | MatchFail | InputFail

definition conv_u :: "string \<Rightarrow> conv" where
  "conv_u s =
     (let s1 = dropWhile isspace_c s
      in if s1 = [] then InputFail
         else
           let neg = (hd s1 = CHR ''-'');
               s2 = (if hd s1 = CHR ''-'' \<or> hd s1 = CHR ''+'' then tl s1 else s1);
               ds = takeWhile ISDIGIT s2
           in if ds = [] then MatchFail
              else Matched (if 0x10000000000000000 \<le> dec_value ds then 0xFFFFFFFF
                            else if neg then - word_of_int (dec_value ds)
                            else word_of_int (dec_value ds))
                           (dropWhile ISDIGIT s2))"

definition EOF :: int where "EOF = - 1"

fun scan :: "directive list \<Rightarrow> string \<Rightarrow> u32 list \<Rightarrow> int \<times> u32 list" where
  "scan [] s vs = (int (length vs), vs)"
| "scan (ConvU # fs) s vs =
     (case conv_u s of
        Matched v s' \<Rightarrow> scan fs s' (vs @ [v])
      | MatchFail \<Rightarrow> (int (length vs), vs)
      | InputFail \<Rightarrow> (if vs = [] then EOF else int (length vs), vs))"
| "scan (Lit c # fs) s vs =
     (case s of
        [] \<Rightarrow> (if vs = [] then EOF else int (length vs), vs)
      | x # s' \<Rightarrow> if x = c then scan fs s' vs else (int (length vs), vs))"

definition sscanf :: "string \<Rightarrow> string \<Rightarrow> int \<times> u32 list" where
  "sscanf str fmt = scan (parse_format fmt) str []"

text \<open>
  The four local variables of \<open>lengthToMs\<close>. They are declared without an initial
  value, so each holds \<open>None\<close> until an \<open>sscanf\<close> call stores into it.
\<close>

record time_vars =
  hour_v :: "u32 option"
  min_v :: "u32 option"
  sec_v :: "u32 option"
  frac_v :: "u32 option"

definition set_hour :: "u32 \<Rightarrow> time_vars \<Rightarrow> time_vars" where
  "set_hour x v = v\<lparr>hour_v := Some x\<rparr>"

definition set_min :: "u32 \<Rightarrow> time_vars \<Rightarrow> time_vars" where
  "set_min x v = v\<lparr>min_v := Some x\<rparr>"

definition set_sec :: "u32 \<Rightarrow> time_vars \<Rightarrow> time_vars" where
  "set_sec x v = v\<lparr>sec_v := Some x\<rparr>"

definition set_frac :: "u32 \<Rightarrow> time_vars \<Rightarrow> time_vars" where
  "set_frac x v = v\<lparr>frac_v := Some x\<rparr>"

text \<open>\<open>sscanf(str, fmt, &a, &b, ...)\<close>: the converted values go to the targets in order.\<close>

definition sscanf_into ::
  "string \<Rightarrow> string \<Rightarrow> (u32 \<Rightarrow> time_vars \<Rightarrow> time_vars) list \<Rightarrow> time_vars \<Rightarrow> int \<times> time_vars" where
  "sscanf_into str fmt targets v =
     (case sscanf str fmt of (n, vals) \<Rightarrow> (n, fold (\<lambda>(t, x). t x) (zip targets vals) v))"


section \<open>PSF.cpp: the length parser\<close>

text \<open>
  \<open>PSFPrivate::lengthToMs(str)\<close>. The result is an \<open>unsigned int\<close>, computed in
  arithmetic modulo \<open>2^32\<close>. Reading a variable that no \<open>sscanf\<close> call has stored into
  is the fault \<open>Uninitialized\<close>; \<open>lengthToMs_total\<close> below shows that no string leads
  to it.
\<close>

definition frac_adj_of :: "string \<Rightarrow> u32" where
  "frac_adj_of str =
     (case (case strchr str (CHR ''.'') of None \<Rightarrow> strchr str (CHR '','') | Some dp \<Rightarrow> Some dp) of
        None \<Rightarrow> 0
      | Some dp \<Rightarrow>
          let digit_count = length (takeWhile ISDIGIT (tl dp))
          in if digit_count = 0 then 0
             else if digit_count = 1 then 100
             else if digit_count = 2 then 10
             else if digit_count = 3 then 1
             else 1)"

definition lengthToMs :: "string \<Rightarrow> fault + u32" where
  "lengthToMs str =
     (let frac_adj = frac_adj_of str;
          v0 = \<lparr>hour_v = None, min_v = None, sec_v = None, frac_v = None\<rparr>;
          (s1, v1) = sscanf_into str ''%u:%u:%u.%u'' [set_hour, set_min, set_sec, set_frac] v0;
          (s2, v2) = (if s1 \<noteq> 4
                      then sscanf_into str ''%u:%u:%u,%u'' [set_hour, set_min, set_sec, set_frac] v1
                      else (s1, v1))
      in if s2 = 4 then
           (case (hour_v v2, min_v v2, sec_v v2, frac_v v2) of
              (Some hour', Some min', Some sec', Some frac') \<Rightarrow>
                Inr ((hour' * 60 * 60 * 1000) + (min' * 60 * 1000) + (sec' * 1000) + (frac' * frac_adj))
            | _ \<Rightarrow> Inl Uninitialized)
         else
      let (s3, v3) = sscanf_into str ''%u:%u:%u'' [set_hour, set_min, set_sec] v2
      in if s3 = 3 then
           (case (hour_v v3, min_v v3, sec_v v3) of
              (Some hour', Some min', Some sec') \<Rightarrow>
                Inr ((hour' * 60 * 60 * 1000) + (min' * 60 * 1000) + (sec' * 1000))
            | _ \<Rightarrow> Inl Uninitialized)
         else
      let (s4, v4) = sscanf_into str ''%u:%u.%u'' [set_min, set_sec, set_frac] v3;
          (s5, v5) = (if s4 \<noteq> 3
                      then sscanf_into str ''%u:%u,%u'' [set_min, set_sec, set_frac] v4
                      else (s4, v4))
      in if s5 = 3 then
           (case (min_v v5, sec_v v5, frac_v v5) of
              (Some min', Some sec', Some frac') \<Rightarrow>
                Inr ((min' * 60 * 1000) + (sec' * 1000) + (frac' * frac_adj))
            | _ \<Rightarrow> Inl Uninitialized)
         else
      let (s6, v6) = sscanf_into str ''%u:%u'' [set_min, set_sec] v5
      in if s6 = 2 then
           (case (min_v v6, sec_v v6) of
              (Some min', Some sec') \<Rightarrow> Inr ((min' * 60 * 1000) + (sec' * 1000))
            | _ \<Rightarrow> Inl Uninitialized)
         else
      let (s7, v7) = sscanf_into str ''%u.%u'' [set_sec, set_frac] v6;
          (s8, v8) = (if s7 \<noteq> 2
                      then sscanf_into str ''%u,%u'' [set_sec, set_frac] v7
                      else (s7, v7))
      in if s8 = 2 then
           (case (min_v v8, sec_v v8, frac_v v8) of
              (Some min', Some sec', Some frac') \<Rightarrow>
                Inr ((min' * 60 * 1000) + (sec' * 1000) + (frac' * frac_adj))
            | _ \<Rightarrow> Inl Uninitialized)
         else
      let (s9, v9) = sscanf_into str ''%u'' [set_sec] v8
      in if s9 = 1 then
           (case sec_v v9 of Some sec' \<Rightarrow> Inr sec' | None \<Rightarrow> Inl Uninitialized)
         else Inr 0)"


section \<open>Files, byte order and the common private data\<close>

text \<open>
  Modelled from the spec: the byte source \<open>IRpFile\<close> (librpfile) is not among the
  sources. The spec gives it \<open>read\<close>, \<open>seekAndRead\<close>, \<open>size\<close> and \<open>rewind\<close>, with
  short reads at the end of the file and seeks beyond it as ordinary results. The model
  is a byte sequence with a cursor; \<open>f_nreads\<close> counts the read calls issued, which is
  the byte-read counter the spec proposes for observing re-parsing.
\<close>

record IRpFile =
  f_data :: "u8 list"
  f_pos :: nat
  f_nreads :: nat

definition IRpFile_rewind :: "IRpFile \<Rightarrow> IRpFile" where
  "IRpFile_rewind f = f\<lparr>f_pos := 0\<rparr>"

definition IRpFile_read :: "IRpFile \<Rightarrow> nat \<Rightarrow> u8 list \<times> IRpFile" where
  "IRpFile_read f n =
     (let got = take n (drop (f_pos f) (f_data f))
      in (got, f\<lparr>f_pos := f_pos f + length got, f_nreads := Suc (f_nreads f)\<rparr>))"

definition IRpFile_seekAndRead :: "IRpFile \<Rightarrow> nat \<Rightarrow> nat \<Rightarrow> u8 list \<times> IRpFile" where
  "IRpFile_seekAndRead f addr n = IRpFile_read (f\<lparr>f_pos := addr\<rparr>) n"

definition IRpFile_size :: "IRpFile \<Rightarrow> nat" where
  "IRpFile_size f = length (f_data f)"

text \<open>
  A structure that was cleared with \<open>memset\<close> and then filled by a read of \<open>n\<close> bytes:
  the bytes delivered, followed by the zero bytes a short read leaves in place.
\<close>

definition struct_bytes :: "nat \<Rightarrow> u8 list \<Rightarrow> u8 list" where
  "struct_bytes n got = take n got @ replicate (n - length got) 0"

text \<open>
  The byte at an offset of a structure laid over a buffer. The callers pass buffers that
  hold the whole structure; an offset outside the buffer reads as zero here.
\<close>

definition byte_at :: "u8 list \<Rightarrow> nat \<Rightarrow> u8" where
  "byte_at bs i = (if i < length bs then bs ! i else 0)"

text \<open>Text in a file: a \<open>char\<close> is one byte.\<close>

definition bytes_of :: "string \<Rightarrow> u8 list" where
  "bytes_of s = map of_char s"

definition chars_of :: "u8 list \<Rightarrow> string" where
  "chars_of bs = map (\<lambda>b. char_of (unat b)) bs"

text \<open>
  Structure fields are read in the byte order of the host; \<open>be\<close> says that the host is
  big-endian. \<open>host16\<close> and \<open>host32\<close> are the values the host reads from consecutive
  bytes, \<open>wr16\<close> and \<open>wr32\<close> the bytes it stores for a value.
\<close>

definition u16_of :: "u8 \<Rightarrow> u8 \<Rightarrow> u16" where
  "u16_of hi lo = push_bit 8 (ucast hi) OR ucast lo"

definition u32_of :: "u8 \<Rightarrow> u8 \<Rightarrow> u8 \<Rightarrow> u8 \<Rightarrow> u32" where
  "u32_of b3 b2 b1 b0 =
     push_bit 24 (ucast b3) OR push_bit 16 (ucast b2) OR push_bit 8 (ucast b1) OR ucast b0"

definition u64_of :: "u32 \<Rightarrow> u32 \<Rightarrow> u64" where
  "u64_of hi lo = push_bit 32 (ucast hi) OR ucast lo"

definition host16 :: "bool \<Rightarrow> u8 \<Rightarrow> u8 \<Rightarrow> u16" where
  "host16 be a b = (if be then u16_of a b else u16_of b a)"

definition host32 :: "bool \<Rightarrow> u8 \<Rightarrow> u8 \<Rightarrow> u8 \<Rightarrow> u8 \<Rightarrow> u32" where
  "host32 be a b c d = (if be then u32_of a b c d else u32_of d c b a)"

definition rd16 :: "bool \<Rightarrow> u8 list \<Rightarrow> nat \<Rightarrow> u16" where
  "rd16 be bs i = host16 be (byte_at bs i) (byte_at bs (i + 1))"

definition rd32 :: "bool \<Rightarrow> u8 list \<Rightarrow> nat \<Rightarrow> u32" where
  "rd32 be bs i =
     host32 be (byte_at bs i) (byte_at bs (i + 1)) (byte_at bs (i + 2)) (byte_at bs (i + 3))"

definition rd64 :: "bool \<Rightarrow> u8 list \<Rightarrow> nat \<Rightarrow> u64" where
  "rd64 be bs i =
     (if be then u64_of (rd32 be bs i) (rd32 be bs (i + 4))
      else u64_of (rd32 be bs (i + 4)) (rd32 be bs i))"

definition wr16 :: "bool \<Rightarrow> u16 \<Rightarrow> u8 list" where
  "wr16 be x =
     (if be then [ucast (drop_bit 8 x), ucast x] else [ucast x, ucast (drop_bit 8 x)])"

definition wr32 :: "bool \<Rightarrow> u32 \<Rightarrow> u8 list" where
  "wr32 be x =
     (if be then [ucast (drop_bit 24 x), ucast (drop_bit 16 x), ucast (drop_bit 8 x), ucast x]
      else [ucast x, ucast (drop_bit 8 x), ucast (drop_bit 16 x), ucast (drop_bit 24 x)])"

text \<open>
  Modelled from the spec: \<open>byteswap.h\<close> is not among the sources. The spec describes
  its functions as conversions of 16/32/64-bit integers and arrays between big, little
  and host byte order; \<open>swab16\<close>, \<open>swab32\<close> and \<open>swab64\<close> reverse the bytes of a value
  by shifts and masks, the \<open>cpu_to\<close> and \<open>to_cpu\<close> conversions apply them when the host
  order differs from the named one, and the array functions apply them to every element.
\<close>

definition swab16 :: "u16 \<Rightarrow> u16" where
  "swab16 x = push_bit 8 x OR drop_bit 8 x"

definition swab32 :: "u32 \<Rightarrow> u32" where
  "swab32 x =
     push_bit 24 x OR drop_bit 24 x OR push_bit 8 (x AND 0xFF00) OR drop_bit 8 (x AND 0xFF0000)"

definition swab64 :: "u64 \<Rightarrow> u64" where
  "swab64 x = u64_of (swab32 (ucast x)) (swab32 (ucast (drop_bit 32 x)))"

definition cpu_to_be16 :: "bool \<Rightarrow> u16 \<Rightarrow> u16" where
  "cpu_to_be16 be x = (if be then x else swab16 x)"

definition cpu_to_be32 :: "bool \<Rightarrow> u32 \<Rightarrow> u32" where
  "cpu_to_be32 be x = (if be then x else swab32 x)"

definition cpu_to_be64 :: "bool \<Rightarrow> u64 \<Rightarrow> u64" where
  "cpu_to_be64 be x = (if be then x else swab64 x)"

definition be32_to_cpu :: "bool \<Rightarrow> u32 \<Rightarrow> u32" where
  "be32_to_cpu be x = (if be then x else swab32 x)"

definition le32_to_cpu :: "bool \<Rightarrow> u32 \<Rightarrow> u32" where
  "le32_to_cpu be x = (if be then swab32 x else x)"

text \<open>
  An array of 16-bit or 32-bit elements stored in a byte buffer, with a function applied
  to every element in place; \<open>byte_swap_16_array\<close> and \<open>byte_swap_32_array\<close> are the
  array functions of \<open>byteswap.h\<close>.
\<close>

fun map_u16 :: "bool \<Rightarrow> (u16 \<Rightarrow> u16) \<Rightarrow> u8 list \<Rightarrow> u8 list" where
  "map_u16 be f (a # b # r) = wr16 be (f (host16 be a b)) @ map_u16 be f r"
| "map_u16 be f r = r"

fun map_u32 :: "bool \<Rightarrow> (u32 \<Rightarrow> u32) \<Rightarrow> u8 list \<Rightarrow> u8 list" where
  "map_u32 be f (a # b # c # d # r) = wr32 be (f (host32 be a b c d)) @ map_u32 be f r"
| "map_u32 be f r = r"

definition byte_swap_16_array :: "bool \<Rightarrow> u8 list \<Rightarrow> u8 list" where
  "byte_swap_16_array be bs = map_u16 be swab16 bs"

definition byte_swap_32_array :: "bool \<Rightarrow> u8 list \<Rightarrow> u8 list" where
  "byte_swap_32_array be bs = map_u32 be swab32 bs"

text \<open>
  Modelled from the spec: \<open>RomFields\<close>, \<open>RomMetaData\<close> and \<open>RomDataPrivate\<close> are not
  among the sources. The spec makes the field list an ordered sequence of labelled
  values and the metadata set a collection of typed values keyed by a property; the
  readers use \<open>empty\<close>, \<open>count\<close> and the \<open>add\<close> functions, modelled as appending.
  The private data holds the file reference (\<open>None\<close> is the null pointer), the validity
  flag, the field list and the metadata object (\<open>None\<close> until it is created).
\<close>

type_synonym RomFields = "(string \<times> string) list"

datatype Property =
  Title | Artist | Album | ReleaseYear | Genre | Copyright | Duration | Subject
  | Channels | SampleRate

datatype MetaValue = MV_string string | MV_integer int | MV_uint nat

type_synonym RomMetaData = "(Property \<times> MetaValue) list"

record RomDataPrivate =
  file' :: "IRpFile option"
  isValid :: bool
  fields' :: RomFields
  metaData :: "RomMetaData option"

definition addField_string :: "string \<Rightarrow> string \<Rightarrow> RomFields \<Rightarrow> RomFields" where
  "addField_string name str fs = fs @ [(name, str)]"

definition addField_string_numeric :: "string \<Rightarrow> nat \<Rightarrow> RomFields \<Rightarrow> RomFields" where
  "addField_string_numeric name val fs = fs @ [(name, dec val)]"

definition addMetaData_string :: "Property \<Rightarrow> string \<Rightarrow> RomMetaData \<Rightarrow> RomMetaData" where
  "addMetaData_string name str md = md @ [(name, MV_string str)]"

definition addMetaData_integer :: "Property \<Rightarrow> int \<Rightarrow> RomMetaData \<Rightarrow> RomMetaData" where
  "addMetaData_integer name val md = md @ [(name, MV_integer val)]"

definition addMetaData_uint :: "Property \<Rightarrow> nat \<Rightarrow> RomMetaData \<Rightarrow> RomMetaData" where
  "addMetaData_uint name val md = md @ [(name, MV_uint val)]"

text \<open>
  The detection information handed to \<open>isRomSupported_static\<close>: the address, size and
  data of the header buffer. The file extension and the file size that accompany them
  are not read by the readers here.
\<close>

record DetectInfo =
  hdr_addr :: u32
  hdr_size :: u32
  hdr_pData :: "u8 list option"


section \<open>PSF.cpp: tags, fields and metadata\<close>

text \<open>
  Modelled from the spec: \<open>psf_structs.h\<close> is not among the sources. The header is the
  16-byte header of the Portable Sound Format: the magic \<open>PSF\<close>, a version byte and
  three 32-bit little-endian counts; the tag magic \<open>[TAG]\<close> has five characters. The
  version constants are those of the format.
\<close>

record PSF_Header =
  magic :: "u8 list"
  version :: u8
  reserved_size :: u32
  compressed_prg_length :: u32
  compressed_prg_crc32 :: u32

definition sizeof_PSF_Header :: nat where "sizeof_PSF_Header = 16"
definition PSF_MAGIC :: string where "PSF_MAGIC = ''PSF''"
definition PSF_TAG_MAGIC :: string where "PSF_TAG_MAGIC = ''[TAG]''"

definition as_PSF_Header :: "bool \<Rightarrow> u8 list \<Rightarrow> PSF_Header" where
  "as_PSF_Header be bs =
     \<lparr>magic = take 3 bs, version = byte_at bs 3, reserved_size = rd32 be bs 4,
      compressed_prg_length = rd32 be bs 8, compressed_prg_crc32 = rd32 be bs 12\<rparr>"

definition PSF_VERSION_PLAYSTATION :: u8 where "PSF_VERSION_PLAYSTATION = 0x01"
definition PSF_VERSION_PLAYSTATION_2 :: u8 where "PSF_VERSION_PLAYSTATION_2 = 0x02"
definition PSF_VERSION_SATURN :: u8 where "PSF_VERSION_SATURN = 0x11"
definition PSF_VERSION_DREAMCAST :: u8 where "PSF_VERSION_DREAMCAST = 0x12"
definition PSF_VERSION_MEGA_DRIVE :: u8 where "PSF_VERSION_MEGA_DRIVE = 0x13"
definition PSF_VERSION_N64 :: u8 where "PSF_VERSION_N64 = 0x21"
definition PSF_VERSION_GBA :: u8 where "PSF_VERSION_GBA = 0x22"
definition PSF_VERSION_SNES :: u8 where "PSF_VERSION_SNES = 0x23"
definition PSF_VERSION_QSOUND :: u8 where "PSF_VERSION_QSOUND = 0x41"

record PSFPrivate = RomDataPrivate +
  psfHeader :: PSF_Header

text \<open>
  The tag map is a \<open>std::unordered_map\<close>. It is kept as an association list with
  distinct keys, looked up with \<open>map_of\<close>. \<open>emplace\<close> inserts only when the key is
  not yet present.
\<close>

type_synonym psf_tags_t = "(string \<times> string) list"

definition emplace :: "string \<Rightarrow> string \<Rightarrow> psf_tags_t \<Rightarrow> psf_tags_t" where
  "emplace k v kv = (case map_of kv k of None \<Rightarrow> kv @ [(k, v)] | Some _ \<Rightarrow> kv)"

text \<open>
  The loop of \<open>parseTags\<close> over the tag data; \<open>p\<close> is the data from the loop pointer
  to \<open>endptr\<close>. One round takes the line up to the next newline (or to the end), skips
  it when it is empty, and otherwise looks for the first equals sign; a line with a
  non-empty key and a non-empty value is entered under the lower-cased key. The line
  lengths are taken as they are (the source narrows them to \<open>int\<close>).
\<close>

function tag_loop :: "string \<Rightarrow> psf_tags_t \<Rightarrow> bool \<Rightarrow> psf_tags_t \<times> bool" where
  "tag_loop p kv isUtf8 =
     (if p = [] then (kv, isUtf8)
      else
        let line = takeWhile (\<lambda>c. c \<noteq> CHR 0x0A) p
        in if line = [] then tag_loop (tl p) kv isUtf8
           else
             let k_len = length (takeWhile (\<lambda>c. c \<noteq> CHR ''='') line);
                 v_len = int (length line) - int k_len - 1;
                 key = map tolower_c (take k_len line);
                 stored = (CHR ''='' \<in> set line \<and> k_len > 0 \<and> v_len > 0);
                 kv' = (if stored then emplace key (drop (k_len + 1) line) kv else kv);
                 isUtf8' = (if stored \<and> key = ''utf8'' \<and> v_len > 0 then True else isUtf8)
             in tag_loop (drop (length line + 1) p) kv' isUtf8')"
  by pat_completeness auto
termination
  by (relation "measure (\<lambda>(p, kv, u). length p)") auto

declare tag_loop.simps [simp del]

text \<open>
  \<open>parseTags(tag_addr)\<close>. Besides the map, the result records the file after the
  reads and the number of bytes allocated for the tag data (\<open>new char8_t[data_len_sz]\<close>).
  \<open>conv\<close> stands for \<open>cp1252_sjis_to_utf8\<close>, which is not among the sources; it is
  handed the value as a C string.
\<close>

record parse_result =
  kv_of :: psf_tags_t
  file_of :: IRpFile
  alloc_of :: nat

definition parseTags :: "(string \<Rightarrow> string) \<Rightarrow> IRpFile \<Rightarrow> nat \<Rightarrow> parse_result" where
  "parseTags conv f tag_addr =
     (case IRpFile_seekAndRead f tag_addr (length PSF_TAG_MAGIC) of (tag_magic, f1) \<Rightarrow>
        if length tag_magic \<noteq> length PSF_TAG_MAGIC
        then \<lparr>kv_of = [], file_of = f1, alloc_of = 0\<rparr>
        else
          let data_len = int (IRpFile_size f1) - int tag_addr - int (length PSF_TAG_MAGIC)
          in if data_len \<le> 0 then \<lparr>kv_of = [], file_of = f1, alloc_of = 0\<rparr>
             else
               let data_len_sz = nat data_len
               in case IRpFile_read f1 data_len_sz of (tag_data, f2) \<Rightarrow>
                    if length tag_data \<noteq> data_len_sz
                    then \<lparr>kv_of = [], file_of = f2, alloc_of = data_len_sz\<rparr>
                    else
                      case tag_loop (chars_of tag_data) [] False of (kv, isUtf8) \<Rightarrow>
                        \<lparr>kv_of = (if \<not> isUtf8 then map (\<lambda>(k, v). (k, conv (c_str v))) kv else kv),
                         file_of = f2, alloc_of = data_len_sz\<rparr>)"

definition getRippedByTagName :: "u8 \<Rightarrow> string" where
  "getRippedByTagName ver =
     (case map_of
        [(PSF_VERSION_PLAYSTATION, ''psfby''), (PSF_VERSION_PLAYSTATION_2, ''psfby''),
         (PSF_VERSION_SATURN, ''ssfby''), (PSF_VERSION_DREAMCAST, ''dsfby''),
         (PSF_VERSION_MEGA_DRIVE, ''msfby''), (PSF_VERSION_N64, ''usfby''),
         (PSF_VERSION_GBA, ''gsfby''), (PSF_VERSION_SNES, ''snsfby''),
         (PSF_VERSION_QSOUND, ''qsfby'')] ver of
        Some tag_name \<Rightarrow> tag_name
      | None \<Rightarrow> ''psfby'')"

text \<open>The constructor \<open>PSF::PSF(file)\<close> and the detection function.\<close>

definition PSF_isRomSupported_static :: "bool \<Rightarrow> DetectInfo option \<Rightarrow> int" where
  "PSF_isRomSupported_static be info =
     (case info of
        None \<Rightarrow> - 1
      | Some i \<Rightarrow>
          (case hdr_pData i of
             None \<Rightarrow> - 1
           | Some pData \<Rightarrow>
               if hdr_addr i \<noteq> 0 \<or> unat (hdr_size i) < sizeof_PSF_Header then - 1
               else if magic (as_PSF_Header be pData) = bytes_of PSF_MAGIC then 0
               else - 1))"

definition PSFPrivate_init :: "IRpFile option \<Rightarrow> PSFPrivate" where
  "PSFPrivate_init f =
     \<lparr>file' = f, isValid = False, fields' = [], metaData = None,
      psfHeader = as_PSF_Header False (replicate sizeof_PSF_Header 0)\<rparr>"

definition PSF_ctor :: "bool \<Rightarrow> IRpFile option \<Rightarrow> PSFPrivate" where
  "PSF_ctor be f =
     (let d = PSFPrivate_init f
      in case file' d of
           None \<Rightarrow> d
         | Some f0 \<Rightarrow>
             (case IRpFile_read (IRpFile_rewind f0) sizeof_PSF_Header of (got, f1) \<Rightarrow>
                let buf = struct_bytes sizeof_PSF_Header got;
                    d1 = d\<lparr>psfHeader := as_PSF_Header be buf, file' := Some f1\<rparr>
                in if length got \<noteq> sizeof_PSF_Header then d1\<lparr>file' := None\<rparr>
                   else
                     let info = \<lparr>hdr_addr = 0, hdr_size = word_of_nat sizeof_PSF_Header,
                                 hdr_pData = Some buf\<rparr>;
                         d2 = d1\<lparr>isValid := (PSF_isRomSupported_static be (Some info) \<ge> 0)\<rparr>
                     in if \<not> isValid d2 then d2\<lparr>file' := None\<rparr> else d2))"


text \<open>
  \<open>PSF::loadFieldData()\<close>. Labels are the untranslated message strings. A tag that
  is present adds one field under its label.
\<close>

definition sysname_lkup_tbl :: "(u8 \<times> string) list" where
  "sysname_lkup_tbl =
     [(PSF_VERSION_PLAYSTATION, ''Sony PlayStation''),
      (PSF_VERSION_PLAYSTATION_2, ''Sony PlayStation 2''),
      (PSF_VERSION_SATURN, ''Sega Saturn''),
      (PSF_VERSION_DREAMCAST, ''Sega Dreamcast''),
      (PSF_VERSION_MEGA_DRIVE, ''Sega Mega Drive''),
      (PSF_VERSION_N64, ''Nintendo 64''),
      (PSF_VERSION_GBA, ''Game Boy Advance''),
      (PSF_VERSION_SNES, ''Super NES''),
      (PSF_VERSION_QSOUND, ''Capcom QSound'')]"

definition tag_field :: "psf_tags_t \<Rightarrow> string \<Rightarrow> string \<Rightarrow> RomFields \<Rightarrow> RomFields" where
  "tag_field tags key title fs =
     (case map_of tags key of Some v \<Rightarrow> addField_string title v fs | None \<Rightarrow> fs)"

definition tag_addr_of :: "bool \<Rightarrow> PSF_Header \<Rightarrow> nat" where
  "tag_addr_of be h =
     sizeof_PSF_Header + unat (le32_to_cpu be (reserved_size h))
       + unat (le32_to_cpu be (compressed_prg_length h))"

definition PSF_tag_fields :: "u8 \<Rightarrow> psf_tags_t \<Rightarrow> RomFields \<Rightarrow> RomFields" where
  "PSF_tag_fields ver tags fs0 =
     (let fs1 = tag_field tags ''title'' ''Title'' fs0;
          fs2 = tag_field tags ''artist'' ''Artist'' fs1;
          fs3 = tag_field tags ''game'' ''Game'' fs2;
          fs4 = tag_field tags ''year'' ''Release Date'' fs3;
          fs5 = tag_field tags ''genre'' ''Genre'' fs4;
          fs6 = tag_field tags ''copyright'' ''Copyright'' fs5;
          fs7 = (case map_of tags (getRippedByTagName ver) of
                   Some v \<Rightarrow> addField_string ''Ripped By'' v fs6
                 | None \<Rightarrow> tag_field tags ''psfby'' ''Ripped By'' fs6);
          fs8 = tag_field tags ''volume'' ''Volume'' fs7;
          fs9 = tag_field tags ''length'' ''Duration'' fs8;
          fs10 = tag_field tags ''fade'' ''Fadeout Duration'' fs9
      in tag_field tags ''comment'' ''Comment'' fs10)"

definition PSF_loadFieldData ::
  "bool \<Rightarrow> (string \<Rightarrow> string) \<Rightarrow> PSFPrivate \<Rightarrow> int \<times> PSFPrivate" where
  "PSF_loadFieldData be conv d =
     (if fields' d \<noteq> [] then (0, d)
      else case file' d of
        None \<Rightarrow> (- EBADF, d)
      | Some f \<Rightarrow>
          if \<not> isValid d then (- EIO, d)
          else
            let psf_version = version (psfHeader d);
                fs0 = (case map_of sysname_lkup_tbl psf_version of
                         Some sysname \<Rightarrow> addField_string ''System'' sysname (fields' d)
                       | None \<Rightarrow>
                           addField_string ''System''
                             (''Unknown (0x'' @ pad0 2 (hex (unat psf_version)) @ '')'') (fields' d));
                tags = parseTags conv f (tag_addr_of be (psfHeader d));
                fs = (if kv_of tags \<noteq> [] then PSF_tag_fields psf_version (kv_of tags) fs0 else fs0)
            in (int (length fs), d\<lparr>file' := Some (file_of tags), fields' := fs\<rparr>))"

text \<open>
  \<open>sscanf(str, "%04d%c", &year, &chr)\<close>: a signed decimal number of at most four
  characters, sign included, then one character. The result is the return value with
  the two variables, \<open>None\<close> where nothing was stored.
\<close>

definition sscanf_04d_c :: "string \<Rightarrow> int \<times> int option \<times> char option" where
  "sscanf_04d_c str =
     (let s1 = dropWhile isspace_c str
      in if s1 = [] then (EOF, None, None)
         else
           let w = take 4 s1;
               has_sign = (hd w = CHR ''-'' \<or> hd w = CHR ''+'');
               ds = takeWhile ISDIGIT (if has_sign then tl w else w)
           in if ds = [] then (0, None, None)
              else
                let year = (if hd w = CHR ''-'' then - dec_value ds else dec_value ds)
                in case drop (length ds + (if has_sign then 1 else 0)) s1 of
                     [] \<Rightarrow> (1, Some year, None)
                   | c # _ \<Rightarrow> (2, Some year, Some c))"

definition tag_meta :: "psf_tags_t \<Rightarrow> string \<Rightarrow> Property \<Rightarrow> RomMetaData \<Rightarrow> RomMetaData" where
  "tag_meta tags key name md =
     (case map_of tags key of Some v \<Rightarrow> addMetaData_string name v md | None \<Rightarrow> md)"

definition year_meta :: "psf_tags_t \<Rightarrow> RomMetaData \<Rightarrow> RomMetaData" where
  "year_meta tags md =
     (case map_of tags ''year'' of
        None \<Rightarrow> md
      | Some v \<Rightarrow>
          (case sscanf_04d_c (c_str v) of (s, year, chr) \<Rightarrow>
             if s = 1 \<or> (s = 2 \<and> (chr = Some (CHR ''-'') \<or> chr = Some (CHR ''/'')))
             then (case year of
                     Some y \<Rightarrow> if y \<ge> 0 \<and> y < 10000 then addMetaData_uint ReleaseYear (nat y) md else md
                   | None \<Rightarrow> md)
             else md))"

definition length_meta :: "psf_tags_t \<Rightarrow> RomMetaData \<Rightarrow> fault + RomMetaData" where
  "length_meta tags md =
     (case map_of tags ''length'' of
        None \<Rightarrow> Inr md
      | Some v \<Rightarrow>
          (case lengthToMs (c_str v) of
             Inl e \<Rightarrow> Inl e
           | Inr ms \<Rightarrow> Inr (addMetaData_integer Duration (sint ms) md)))"

text \<open>
  \<open>PSF::loadMetaData()\<close>. The tags are parsed before the metadata object is created;
  with an empty map the function returns \<open>-EIO\<close> and creates nothing.
\<close>

definition PSF_loadMetaData ::
  "bool \<Rightarrow> (string \<Rightarrow> string) \<Rightarrow> PSFPrivate \<Rightarrow> fault + (int \<times> PSFPrivate)" where
  "PSF_loadMetaData be conv d =
     (if metaData d \<noteq> None then Inr (0, d)
      else case file' d of
        None \<Rightarrow> Inr (- EBADF, d)
      | Some f \<Rightarrow>
          if \<not> isValid d then Inr (- EIO, d)
          else
            let r = parseTags conv f (tag_addr_of be (psfHeader d));
                tags = kv_of r;
                d1 = d\<lparr>file' := Some (file_of r)\<rparr>
            in if tags = [] then Inr (- EIO, d1)
               else
                 let md0 = [];
                     md1 = tag_meta tags ''title'' Title md0;
                     md2 = tag_meta tags ''artist'' Artist md1;
                     md3 = tag_meta tags ''game'' Album md2;
                     md4 = year_meta tags md3;
                     md5 = tag_meta tags ''genre'' Genre md4;
                     md6 = tag_meta tags ''copyright'' Copyright md5
                 in (case length_meta tags md6 of
                       Inl e \<Rightarrow> Inl e
                     | Inr md7 \<Rightarrow>
                         let md8 = tag_meta tags ''comment'' Subject md7
                         in Inr (int (length md8), d1\<lparr>metaData := Some md8\<rparr>)))"


section \<open>BRSTM.cpp\<close>

text \<open>
  Modelled from the spec: \<open>brstm_structs.h\<close> is not among the sources. The spec speaks
  of a magic, a byte-order mark with two permitted values, a chunk count and named
  sub-chunk offset/size pairs. The layout below is the one of the BRSTM format: a
  64-byte file header, a 32-byte HEAD chunk header and a 52-byte first part of the
  HEAD chunk, of which the fields read by the code are kept. Multi-byte fields hold the
  value the host reads from the file bytes.
\<close>

record chunk_ref =
  offset :: u32
  size' :: u32

record BRSTM_Header =
  magic_RSTM :: u32
  bom :: u16
  version_major :: u8
  version_minor :: u8
  file_size :: u32
  header_size :: u16
  chunk_count :: u16
  head :: chunk_ref
  adpc :: chunk_ref
  data :: chunk_ref

record BRSTM_HEAD_Header =
  magic_HEAD :: u32
  size_HEAD :: u32
  head1_offset :: u32
  head2_offset :: u32
  head3_offset :: u32

record BRSTM_HEAD_Chunk1 =
  codec :: u8
  loop_flag :: u8
  channel_count :: u8
  sample_rate :: u16
  loop_start :: u32
  sample_count :: u32

definition sizeof_BRSTM_Header :: nat where "sizeof_BRSTM_Header = 64"
definition sizeof_BRSTM_HEAD_Header :: nat where "sizeof_BRSTM_HEAD_Header = 32"
definition sizeof_BRSTM_HEAD_Chunk1 :: nat where "sizeof_BRSTM_HEAD_Chunk1 = 52"

definition BRSTM_MAGIC :: u32 where "BRSTM_MAGIC = 0x5253544D"
definition BRSTM_HEAD_MAGIC :: u32 where "BRSTM_HEAD_MAGIC = 0x48454144"
definition BRSTM_BOM_HOST :: u16 where "BRSTM_BOM_HOST = 0xFEFF"
definition BRSTM_BOM_SWAP :: u16 where "BRSTM_BOM_SWAP = 0xFFFE"

definition as_chunk_ref :: "bool \<Rightarrow> u8 list \<Rightarrow> nat \<Rightarrow> chunk_ref" where
  "as_chunk_ref be bs i = \<lparr>offset = rd32 be bs i, size' = rd32 be bs (i + 4)\<rparr>"

definition as_BRSTM_Header :: "bool \<Rightarrow> u8 list \<Rightarrow> BRSTM_Header" where
  "as_BRSTM_Header be bs =
     \<lparr>magic_RSTM = rd32 be bs 0, bom = rd16 be bs 4,
      version_major = byte_at bs 6, version_minor = byte_at bs 7,
      file_size = rd32 be bs 8, header_size = rd16 be bs 12, chunk_count = rd16 be bs 14,
      head = as_chunk_ref be bs 16, adpc = as_chunk_ref be bs 24, data = as_chunk_ref be bs 32\<rparr>"

definition as_BRSTM_HEAD_Header :: "bool \<Rightarrow> u8 list \<Rightarrow> BRSTM_HEAD_Header" where
  "as_BRSTM_HEAD_Header be bs =
     \<lparr>magic_HEAD = rd32 be bs 0, size_HEAD = rd32 be bs 4, head1_offset = rd32 be bs 12,
      head2_offset = rd32 be bs 20, head3_offset = rd32 be bs 28\<rparr>"

definition as_BRSTM_HEAD_Chunk1 :: "bool \<Rightarrow> u8 list \<Rightarrow> BRSTM_HEAD_Chunk1" where
  "as_BRSTM_HEAD_Chunk1 be bs =
     \<lparr>codec = byte_at bs 0, loop_flag = byte_at bs 1, channel_count = byte_at bs 2,
      sample_rate = rd16 be bs 4, loop_start = rd32 be bs 8, sample_count = rd32 be bs 12\<rparr>"

record BRSTMPrivate = RomDataPrivate +
  brstmHeader :: BRSTM_Header
  headChunk1 :: BRSTM_HEAD_Chunk1
  needsByteswap :: bool

definition brstm16_to_cpu :: "BRSTMPrivate \<Rightarrow> u16 \<Rightarrow> u16" where
  "brstm16_to_cpu d x = (if needsByteswap d then swab16 x else x)"

definition brstm32_to_cpu :: "BRSTMPrivate \<Rightarrow> u32 \<Rightarrow> u32" where
  "brstm32_to_cpu d x = (if needsByteswap d then swab32 x else x)"

text \<open>
  \<open>BRSTM::isRomSupported_static(info)\<close>. The three assertions at its head are compiled
  out (\<open>NDEBUG\<close>); a null \<open>info\<close> or a null buffer is \<open>None\<close>.
\<close>

definition BRSTM_isRomSupported_static :: "bool \<Rightarrow> DetectInfo option \<Rightarrow> int" where
  "BRSTM_isRomSupported_static be info =
     (case info of
        None \<Rightarrow> - 1
      | Some i \<Rightarrow>
          (case hdr_pData i of
             None \<Rightarrow> - 1
           | Some pData \<Rightarrow>
               if hdr_addr i \<noteq> 0 \<or> unat (hdr_size i) < sizeof_BRSTM_Header then - 1
               else
                 let brstmHeader = as_BRSTM_Header be pData
                 in if magic_RSTM brstmHeader \<noteq> cpu_to_be32 be BRSTM_MAGIC then - 1
                    else
                      (case (if bom brstmHeader = BRSTM_BOM_HOST then Some False
                             else if bom brstmHeader = BRSTM_BOM_SWAP then Some True
                             else None) of
                         None \<Rightarrow> - 1
                       | Some needsByteswap' \<Rightarrow>
                           let chunk_count = (if needsByteswap' then swab16 (chunk_count brstmHeader)
                                              else chunk_count brstmHeader)
                           in if chunk_count < 2 then - 1
                              else if offset (head brstmHeader) = 0
                                      \<or> size' (head brstmHeader) = 0
                                      \<or> offset (data brstmHeader) = 0
                                      \<or> size' (data brstmHeader) = 0
                              then - 1
                              else 0)))"

text \<open>
  The constructor \<open>BRSTM::BRSTM(file)\<close>, in two parts: the file header with its
  detection, and the HEAD chunk. Every failure after the first read clears the validity
  flag and drops the file reference.
\<close>

definition BRSTMPrivate_init :: "IRpFile option \<Rightarrow> BRSTMPrivate" where
  "BRSTMPrivate_init f =
     \<lparr>file' = f, isValid = False, fields' = [], metaData = None,
      brstmHeader = as_BRSTM_Header False (replicate sizeof_BRSTM_Header 0),
      headChunk1 = as_BRSTM_HEAD_Chunk1 False (replicate sizeof_BRSTM_HEAD_Chunk1 0),
      needsByteswap = False\<rparr>"

definition BRSTM_ctor_HEAD :: "bool \<Rightarrow> IRpFile \<Rightarrow> BRSTMPrivate \<Rightarrow> BRSTMPrivate" where
  "BRSTM_ctor_HEAD be f1 d =
     (let head_offset = brstm32_to_cpu d (offset (head (brstmHeader d)));
          head_size = brstm32_to_cpu d (size' (head (brstmHeader d)))
      in if head_offset = 0 \<or> unat head_size < sizeof_BRSTM_HEAD_Header
         then d\<lparr>isValid := False, file' := None\<rparr>
         else
           case IRpFile_seekAndRead f1 (unat head_offset) sizeof_BRSTM_HEAD_Header of (got2, f2) \<Rightarrow>
             let headHeader = as_BRSTM_HEAD_Header be (struct_bytes sizeof_BRSTM_HEAD_Header got2);
                 d2 = d\<lparr>file' := Some f2\<rparr>
             in if length got2 \<noteq> sizeof_BRSTM_HEAD_Header
                then d2\<lparr>isValid := False, file' := None\<rparr>
                else if magic_HEAD headHeader \<noteq> cpu_to_be32 be BRSTM_HEAD_MAGIC
                then d2\<lparr>isValid := False, file' := None\<rparr>
                else
                  let head1_offset = brstm32_to_cpu d2 (head1_offset headHeader)
                  in if unat head1_offset < sizeof_BRSTM_HEAD_Header - 8
                     then d2\<lparr>isValid := False, file' := None\<rparr>
                     else
                       case IRpFile_seekAndRead f2 (unat (head_offset + 8 + head1_offset))
                              sizeof_BRSTM_HEAD_Chunk1 of (got3, f3) \<Rightarrow>
                         let d3 = d2\<lparr>file' := Some f3,
                                    headChunk1 := as_BRSTM_HEAD_Chunk1 be
                                      (struct_bytes sizeof_BRSTM_HEAD_Chunk1 got3)\<rparr>
                         in if length got3 \<noteq> sizeof_BRSTM_HEAD_Chunk1
                            then d3\<lparr>isValid := False, file' := None\<rparr>
                            else d3)"

definition BRSTM_ctor :: "bool \<Rightarrow> IRpFile option \<Rightarrow> BRSTMPrivate" where
  "BRSTM_ctor be f =
     (let d = BRSTMPrivate_init f
      in case file' d of
           None \<Rightarrow> d
         | Some f0 \<Rightarrow>
             (case IRpFile_read (IRpFile_rewind f0) sizeof_BRSTM_Header of (got, f1) \<Rightarrow>
                let buf = struct_bytes sizeof_BRSTM_Header got;
                    d1 = d\<lparr>file' := Some f1, brstmHeader := as_BRSTM_Header be buf\<rparr>
                in if length got \<noteq> sizeof_BRSTM_Header then d1\<lparr>file' := None\<rparr>
                   else
                     let info = \<lparr>hdr_addr = 0, hdr_size = word_of_nat sizeof_BRSTM_Header,
                                 hdr_pData = Some buf\<rparr>;
                         d2 = d1\<lparr>isValid := (BRSTM_isRomSupported_static be (Some info) \<ge> 0)\<rparr>
                     in if \<not> isValid d2 then d2\<lparr>file' := None\<rparr>
                        else BRSTM_ctor_HEAD be f1
                               (d2\<lparr>needsByteswap := (bom (brstmHeader d2) = BRSTM_BOM_SWAP)\<rparr>)))"

text \<open>\<open>BRSTM::loadFieldData()\<close> and \<open>BRSTM::loadMetaData()\<close>.\<close>

definition codec_tbl :: "string list" where
  "codec_tbl = [''Signed 8-bit PCM'', ''Signed 16-bit PCM'', ''4-bit THP ADPCM'']"

definition BRSTM_loadFieldData :: "bool \<Rightarrow> BRSTMPrivate \<Rightarrow> int \<times> BRSTMPrivate" where
  "BRSTM_loadFieldData be d =
     (if fields' d \<noteq> [] then (0, d)
      else if file' d = None then (- EBADF, d)
      else if \<not> isValid d then (- EIO, d)
      else
        let brstmHeader = brstmHeader d;
            headChunk1 = headChunk1 d;
            fs1 = addField_string ''Version''
                    (dec (unat (version_major brstmHeader)) @ ''.''
                       @ dec (unat (version_minor brstmHeader))) (fields' d);
            fs2 = addField_string ''Endianness''
                    (if bom brstmHeader = cpu_to_be16 be BRSTM_BOM_HOST
                     then ''Big-Endian'' else ''Little-Endian'') fs1;
            fs3 = (if unat (codec headChunk1) < length codec_tbl
                   then addField_string ''Codec'' (codec_tbl ! unat (codec headChunk1)) fs2
                   else addField_string ''Codec''
                          (''Unknown ('' @ dec (unat (codec headChunk1)) @ '')'') fs2);
            fs4 = addField_string_numeric ''Channels'' (unat (channel_count headChunk1)) fs3;
            sample_rate = brstm16_to_cpu d (sample_rate headChunk1);
            sample_count = brstm32_to_cpu d (sample_count headChunk1);
            fs5 = addField_string ''Sample Rate'' (dec (unat sample_rate) @ '' Hz'') fs4;
            fs6 = addField_string ''Length''
                    (formatSampleAsTime sample_count (ucast sample_rate)) fs5;
            fs7 = addField_string ''Looping''
                    (if loop_flag headChunk1 \<noteq> 0 then ''Yes'' else ''No'') fs6;
            fs8 = (if loop_flag headChunk1 \<noteq> 0
                   then addField_string ''Loop Start''
                          (formatSampleAsTime (brstm32_to_cpu d (loop_start headChunk1))
                             (ucast sample_rate)) fs7
                   else fs7)
        in (int (length fs8), d\<lparr>fields' := fs8\<rparr>))"

definition BRSTM_loadMetaData :: "BRSTMPrivate \<Rightarrow> fault + (int \<times> BRSTMPrivate)" where
  "BRSTM_loadMetaData d =
     (if metaData d \<noteq> None then Inr (0, d)
      else if file' d = None then Inr (- EBADF, d)
      else if \<not> isValid d then Inr (- EIO, d)
      else
        let headChunk1 = headChunk1 d;
            md1 = addMetaData_integer Channels (uint (channel_count headChunk1)) [];
            sample_rate = brstm16_to_cpu d (sample_rate headChunk1);
            sample_count = brstm32_to_cpu d (sample_count headChunk1);
            md2 = addMetaData_integer SampleRate (uint sample_rate) md1
        in case convSampleToMs sample_count (ucast sample_rate) of
             Inl e \<Rightarrow> Inl e
           | Inr ms \<Rightarrow>
               let md3 = addMetaData_integer Duration (sint ms) md2
               in Inr (int (length md3), d\<lparr>metaData := Some md3\<rparr>))"


section \<open>N64.cpp\<close>

text \<open>
  Modelled from the spec: \<open>n64_structs.h\<close> is not among the sources. The spec names
  the four container variants Z64, V64, swap2 and LE32, each with its own magic. The
  ROM header is the 64-byte header of an N64 ROM image, a union of the named fields
  with arrays of 8-, 16- and 32-bit elements; the four magics are the first eight bytes
  \<open>80 37 12 40 00 00 00 0F\<close> of a ROM in each variant's byte arrangement.
\<close>

definition sizeof_N64_RomHeader :: nat where "sizeof_N64_RomHeader = 64"

definition N64_Z64_MAGIC :: u64 where "N64_Z64_MAGIC = 0x803712400000000F"
definition N64_V64_MAGIC :: u64 where "N64_V64_MAGIC = 0x3780401200000F00"
definition N64_SWAP2_MAGIC :: u64 where "N64_SWAP2_MAGIC = 0x12408037000F0000"
definition N64_LE32_MAGIC :: u64 where "N64_LE32_MAGIC = 0x401237800F000000"

record N64_RomHeader =
  init_pi :: u32
  clockrate :: u32
  entrypoint :: u32
  os_version :: "u8 list"
  crc :: "u32 list"
  reserved1 :: "u8 list"
  title :: "u8 list"
  reserved :: "u8 list"
  id4 :: "u8 list"
  revision :: u8

text \<open>The named fields of the union, as the host reads them from its 64 bytes.\<close>

definition as_N64_RomHeader :: "bool \<Rightarrow> u8 list \<Rightarrow> N64_RomHeader" where
  "as_N64_RomHeader be bs =
     \<lparr>init_pi = rd32 be bs 0, clockrate = rd32 be bs 4, entrypoint = rd32 be bs 8,
      os_version = take 4 (drop 12 bs), crc = [rd32 be bs 16, rd32 be bs 20],
      reserved1 = take 8 (drop 24 bs), title = take 20 (drop 32 bs),
      reserved = take 7 (drop 52 bs), id4 = take 4 (drop 59 bs), revision = byte_at bs 63\<rparr>"

definition ROM_TYPE_UNKNOWN :: int where "ROM_TYPE_UNKNOWN = - 1"
definition ROM_TYPE_Z64 :: int where "ROM_TYPE_Z64 = 0"
definition ROM_TYPE_V64 :: int where "ROM_TYPE_V64 = 1"
definition ROM_TYPE_SWAP2 :: int where "ROM_TYPE_SWAP2 = 2"
definition ROM_TYPE_LE32 :: int where "ROM_TYPE_LE32 = 3"

record N64Private = RomDataPrivate +
  romType :: int
  romHeader :: N64_RomHeader

definition N64_isRomSupported_static :: "bool \<Rightarrow> DetectInfo option \<Rightarrow> int" where
  "N64_isRomSupported_static be info =
     (case info of
        None \<Rightarrow> - 1
      | Some i \<Rightarrow>
          (case hdr_pData i of
             None \<Rightarrow> - 1
           | Some pData \<Rightarrow>
               if hdr_addr i \<noteq> 0 \<or> unat (hdr_size i) < sizeof_N64_RomHeader then - 1
               else
                 let magic64 = rd64 be pData 0
                 in if magic64 = cpu_to_be64 be N64_Z64_MAGIC then ROM_TYPE_Z64
                    else if magic64 = cpu_to_be64 be N64_V64_MAGIC then ROM_TYPE_V64
                    else if magic64 = cpu_to_be64 be N64_SWAP2_MAGIC then ROM_TYPE_SWAP2
                    else if magic64 = cpu_to_be64 be N64_LE32_MAGIC then ROM_TYPE_LE32
                    else ROM_TYPE_UNKNOWN))"

definition UNSWAP2 :: "u32 \<Rightarrow> u32" where
  "UNSWAP2 x = drop_bit 16 x OR push_bit 16 x"

definition N64Private_init :: "IRpFile option \<Rightarrow> N64Private" where
  "N64Private_init f =
     \<lparr>file' = f, isValid = False, fields' = [], metaData = None,
      romType = ROM_TYPE_UNKNOWN,
      romHeader = as_N64_RomHeader False (replicate sizeof_N64_RomHeader 0)\<rparr>"

text \<open>
  The constructor \<open>N64::N64(file)\<close>. \<open>u\<close> is the memory of the header union: the
  switch rewrites it through the 16-bit or 32-bit array view, and the named fields are
  then converted from big-endian. The array functions are called with the size of the
  array view in bytes, which is the whole header, and the loop of the swap2 case runs
  over all sixteen 32-bit elements.
\<close>

definition N64_byteswap_header :: "bool \<Rightarrow> N64_RomHeader \<Rightarrow> N64_RomHeader" where
  "N64_byteswap_header be h =
     h\<lparr>init_pi := be32_to_cpu be (init_pi h),
       clockrate := be32_to_cpu be (clockrate h),
       entrypoint := be32_to_cpu be (entrypoint h),
       crc := map (be32_to_cpu be) (crc h)\<rparr>"

definition N64_ctor :: "bool \<Rightarrow> IRpFile option \<Rightarrow> N64Private" where
  "N64_ctor be f =
     (let d = N64Private_init f
      in case file' d of
           None \<Rightarrow> d
         | Some f0 \<Rightarrow>
             (case IRpFile_read (IRpFile_rewind f0) sizeof_N64_RomHeader of (got, f1) \<Rightarrow>
                let u = struct_bytes sizeof_N64_RomHeader got;
                    d1 = d\<lparr>file' := Some f1, romHeader := as_N64_RomHeader be u\<rparr>
                in if length got \<noteq> sizeof_N64_RomHeader then d1\<lparr>file' := None\<rparr>
                   else
                     let info = \<lparr>hdr_addr = 0, hdr_size = word_of_nat sizeof_N64_RomHeader,
                                 hdr_pData = Some u\<rparr>;
                         d2 = d1\<lparr>romType := N64_isRomSupported_static be (Some info)\<rparr>;
                         u' = (if romType d2 = ROM_TYPE_Z64 then Some u
                               else if romType d2 = ROM_TYPE_V64 then Some (byte_swap_16_array be u)
                               else if romType d2 = ROM_TYPE_SWAP2 then Some (map_u32 be UNSWAP2 u)
                               else if romType d2 = ROM_TYPE_LE32 then Some (byte_swap_32_array be u)
                               else None)
                     in (case u' of
                           None \<Rightarrow> d2\<lparr>file' := None, romType := ROM_TYPE_UNKNOWN\<rparr>
                         | Some z64 \<Rightarrow>
                             d2\<lparr>isValid := True,
                                romHeader := N64_byteswap_header be (as_N64_RomHeader be z64)\<rparr>)))"

text \<open>
  The container variants as the spec words them: a header in one of the variants is
  the canonical big-endian (Z64) header with every 16-bit element byte-swapped (V64),
  with the two 16-bit halves of every 32-bit word exchanged (swap2), or with every
  32-bit element byte-swapped (LE32).
\<close>

datatype n64_variant = Z64 | V64 | SWAP2 | LE32

fun swap_bytes16 :: "u8 list \<Rightarrow> u8 list" where
  "swap_bytes16 (a # b # r) = b # a # swap_bytes16 r"
| "swap_bytes16 r = r"

fun swap_halves32 :: "u8 list \<Rightarrow> u8 list" where
  "swap_halves32 (a # b # c # d # r) = c # d # a # b # swap_halves32 r"
| "swap_halves32 r = r"

fun swap_bytes32 :: "u8 list \<Rightarrow> u8 list" where
  "swap_bytes32 (a # b # c # d # r) = d # c # b # a # swap_bytes32 r"
| "swap_bytes32 r = r"

fun encode_variant :: "n64_variant \<Rightarrow> u8 list \<Rightarrow> u8 list" where
  "encode_variant Z64 h = h"
| "encode_variant V64 h = swap_bytes16 h"
| "encode_variant SWAP2 h = swap_halves32 h"
| "encode_variant LE32 h = swap_bytes32 h"

fun rom_type_of :: "n64_variant \<Rightarrow> int" where
  "rom_type_of Z64 = ROM_TYPE_Z64"
| "rom_type_of V64 = ROM_TYPE_V64"
| "rom_type_of SWAP2 = ROM_TYPE_SWAP2"
| "rom_type_of LE32 = ROM_TYPE_LE32"

definition z64_magic_bytes :: "u8 list" where
  "z64_magic_bytes = [0x80, 0x37, 0x12, 0x40, 0x00, 0x00, 0x00, 0x0F]"


section \<open>Specifications and example files\<close>

text \<open>
  The checks of the BRSTM constructor, written as one predicate on the file: the
  primary header is read in full, detection accepts it, the HEAD offset and size pass
  their bounds check, the HEAD chunk header is read in full and carries the HEAD magic,
  the offset of the first part passes its bounds check, and the first part is read in
  full.
\<close>

definition to_cpu32 :: "bool \<Rightarrow> u32 \<Rightarrow> u32" where
  "to_cpu32 swap x = (if swap then swab32 x else x)"

definition BRSTM_HEAD_checks :: "bool \<Rightarrow> bool \<Rightarrow> u8 list \<Rightarrow> BRSTM_Header \<Rightarrow> bool" where
  "BRSTM_HEAD_checks be swap bytes hdr =
     (let head_offset = to_cpu32 swap (offset (head hdr));
          head_size = to_cpu32 swap (size' (head hdr));
          headHeader = as_BRSTM_HEAD_Header be
                         (take sizeof_BRSTM_HEAD_Header (drop (unat head_offset) bytes));
          head1_offset = to_cpu32 swap (head1_offset headHeader)
      in head_offset \<noteq> 0 \<and> sizeof_BRSTM_HEAD_Header \<le> unat head_size
         \<and> unat head_offset + sizeof_BRSTM_HEAD_Header \<le> length bytes
         \<and> magic_HEAD headHeader = cpu_to_be32 be BRSTM_HEAD_MAGIC
         \<and> sizeof_BRSTM_HEAD_Header - 8 \<le> unat head1_offset
         \<and> unat (head_offset + 8 + head1_offset) + sizeof_BRSTM_HEAD_Chunk1 \<le> length bytes)"

definition BRSTM_ctor_checks :: "bool \<Rightarrow> IRpFile \<Rightarrow> bool" where
  "BRSTM_ctor_checks be f =
     (let buf = take sizeof_BRSTM_Header (f_data f);
          hdr = as_BRSTM_Header be buf
      in sizeof_BRSTM_Header \<le> length (f_data f)
         \<and> 0 \<le> BRSTM_isRomSupported_static be
                 (Some \<lparr>hdr_addr = 0, hdr_size = word_of_nat sizeof_BRSTM_Header,
                        hdr_pData = Some buf\<rparr>)
         \<and> BRSTM_HEAD_checks be (bom hdr = BRSTM_BOM_SWAP) (f_data f) hdr)"

text \<open>
  Detection of a BRSTM header in terms of the bytes of the file, whatever the host: the
  buffer is given at offset 0 with at least the size of the header; the magic spells
  \<open>RSTM\<close>; the byte-order mark is \<open>FE FF\<close> (a big-endian file) or \<open>FF FE\<close> (a
  little-endian file); the chunk count, read in the byte order of the file, is at least
  2; and the offsets and sizes of HEAD and DATA are not zero.
\<close>

definition BRSTM_detect_spec :: "DetectInfo option \<Rightarrow> bool" where
  "BRSTM_detect_spec info =
     (case info of
        None \<Rightarrow> False
      | Some i \<Rightarrow>
          (case hdr_pData i of
             None \<Rightarrow> False
           | Some p \<Rightarrow>
               hdr_addr i = 0 \<and> sizeof_BRSTM_Header \<le> unat (hdr_size i)
               \<and> rd32 True p 0 = BRSTM_MAGIC
               \<and> (rd16 True p 4 = 0xFEFF \<or> rd16 True p 4 = 0xFFFE)
               \<and> 2 \<le> (if rd16 True p 4 = 0xFEFF then rd16 True p 14 else rd16 False p 14)
               \<and> rd32 True p 16 \<noteq> 0 \<and> rd32 True p 20 \<noteq> 0
               \<and> rd32 True p 32 \<noteq> 0 \<and> rd32 True p 36 \<noteq> 0))"

text \<open>
  The tag section described line by line, independently of the loop of \<open>parseTags\<close>:
  the data is a sequence of lines separated by newline characters; a line is a tag when it
  holds an equals sign with a non-empty key before the first one and a non-empty value
  after it, and keys are compared in lower case. \<open>tag_pairs\<close> lists the tags of the data
  in the order of their lines; \<open>first_value\<close> and \<open>last_value\<close> are the values of the
  first and of the last tag with a given key.
\<close>

primrec lines_of :: "string \<Rightarrow> string list" where
  "lines_of [] = [[]]"
| "lines_of (c # cs) =
     (if c = CHR 0x0A then [] # lines_of cs
      else (case lines_of cs of [] \<Rightarrow> [[c]] | l # ls \<Rightarrow> (c # l) # ls))"

definition tag_of_line :: "string \<Rightarrow> (string \<times> string) option" where
  "tag_of_line line =
     (let key = takeWhile (\<lambda>c. c \<noteq> CHR ''='') line;
          val = tl (dropWhile (\<lambda>c. c \<noteq> CHR ''='') line)
      in if CHR ''='' \<in> set line \<and> key \<noteq> [] \<and> val \<noteq> []
         then Some (map tolower_c key, val) else None)"

definition tag_pairs :: "string \<Rightarrow> (string \<times> string) list" where
  "tag_pairs p = List.map_filter tag_of_line (lines_of p)"

fun first_value :: "string \<Rightarrow> (string \<times> string) list \<Rightarrow> string option" where
  "first_value k [] = None"
| "first_value k ((k', v) # ps) = (if k' = k then Some v else first_value k ps)"

definition last_value :: "string \<Rightarrow> (string \<times> string) list \<Rightarrow> string option" where
  "last_value k ps = first_value k (rev ps)"

text \<open>A tag block in which the key \<open>title\<close> occurs twice, in different case.\<close>

definition psf_tags_example :: string where
  "psf_tags_example = ''Title=first'' @ [CHR 0x0A] @ ''title=second''"

text \<open>
  A BRSTM file of 168 bytes in big-endian byte order (header, HEAD chunk header, first
  part of the HEAD chunk with 2 channels at 44100 Hz and no loop, and a DATA stub), the
  same file cut after 100 bytes, a PSF file that is a header and nothing else, and a
  canonical N64 header.
\<close>

definition brstm_example :: IRpFile where
  "brstm_example =
     \<lparr>f_data = bytes_of ''RSTM'' @ [0xFE, 0xFF, 1, 0,  0, 0, 0, 0xB4,  0, 0x40,  0, 2,
                 0, 0, 0, 0x40,  0, 0, 0, 0x54,  0, 0, 0, 0,  0, 0, 0, 0,
                 0, 0, 0, 0xA0,  0, 0, 0, 0x14] @ replicate 24 0
               @ bytes_of ''HEAD'' @ [0, 0, 0, 0x54,  1, 0, 0, 0,  0, 0, 0, 0x18,
                 1, 0, 0, 0,  0, 0, 0, 0,  1, 0, 0, 0,  0, 0, 0, 0]
               @ [2, 0, 2, 0,  0xAC, 0x44,  0, 0,  0, 0, 0, 0,  0, 0x28, 0x5F, 0xF0]
               @ replicate 36 0 @ replicate 20 0,
      f_pos = 0, f_nreads = 0\<rparr>"

definition brstm_truncated :: IRpFile where
  "brstm_truncated = brstm_example\<lparr>f_data := take 100 (f_data brstm_example)\<rparr>"

definition psf_header_only :: IRpFile where
  "psf_header_only = \<lparr>f_data = bytes_of ''PSF'' @ [0x01] @ replicate 12 0, f_pos = 0, f_nreads = 0\<rparr>"

definition n64_example_header :: "u8 list" where
  "n64_example_header = z64_magic_bytes @ replicate 56 0x41"

section \<open>Properties of the audio functions\<close>

lemma time_string_0_00_00:
  "take 31 (dec 0 @ '':'' @ pad0 2 (dec 0) @ ''.'' @ pad0 2 (dec 0)) = ''0:00.00''"
  by code_simp

lemma time_string_0_01_00:
  "take 31 (dec 0 @ '':'' @ pad0 2 (dec 1) @ ''.'' @ pad0 2 (dec 0)) = ''0:01.00''"
  by code_simp

lemma time_string_1_00_00:
  "take 31 (dec 1 @ '':'' @ pad0 2 (dec 0) @ ''.'' @ pad0 2 (dec 0)) = ''1:00.00''"
  by code_simp

lemma formatSampleAsTime_0: "formatSampleAsTime 0 44100 = ''0:00.00''"
  using time_string_0_00_00 by (simp add: formatSampleAsTime_def)

lemma formatSampleAsTime_1s: "formatSampleAsTime 44100 44100 = ''0:01.00''"
  using time_string_0_01_00 by (simp add: formatSampleAsTime_def)

lemma formatSampleAsTime_60s: "formatSampleAsTime 2646000 44100 = ''1:00.00''"
  using time_string_1_00_00 by (simp add: formatSampleAsTime_def)

lemma formatSampleAsTime_zero_rate: "formatSampleAsTime sample 0 = ''#DIV/0!''"
  by (simp add: formatSampleAsTime_def)

text \<open>
  C5. Both sample converters are to divide only when the sample rate is not zero, a
  zero rate giving a sentinel. \<open>formatSampleAsTime\<close> does so
  (\<open>formatSampleAsTime_zero_rate\<close>), but \<open>convSampleToMs\<close> has no such test: for every
  sample value a zero rate reaches the remainder \<open>sample % rate\<close>, a division by zero.
\<close>

theorem convSampleToMs_zero_rate:
  "convSampleToMs sample 0 = Inl DivByZero"
  by (simp add: convSampleToMs_def)

text \<open>
  C6, as the code has it. At 44100 Hz, sample 0 is formatted as \<open>0:00.00\<close> and sample
  44100, one second, as \<open>0:01.00\<close>; the string \<open>1:00.00\<close> is the result for sample
  2646000, sixty seconds.
\<close>

theorem formatSampleAsTime_vectors:
  "formatSampleAsTime 0 44100 = ''0:00.00'' \<and> formatSampleAsTime 44100 44100 = ''0:01.00''
   \<and> formatSampleAsTime 2646000 44100 = ''1:00.00''"
  by (simp only: formatSampleAsTime_0 formatSampleAsTime_1s formatSampleAsTime_60s)

text \<open>
  C6 as stated fails at its second vector: sample 44100 at 44100 Hz is not formatted
  as \<open>1:00.00\<close>.
\<close>

theorem formatSampleAsTime_second_vector_fails:
  "formatSampleAsTime 44100 44100 \<noteq> ''1:00.00''"
  by (simp add: formatSampleAsTime_1s)

section \<open>Properties of the PSF reader\<close>

text \<open>
  The length parser never reads a variable that was not assigned: a call of \<open>sscanf\<close>
  that returns the number of its targets has stored into each of them, and in the branch
  for \<open>seconds.decimal\<close>, which reads \<open>min\<close>, the first number of the string was
  stored into \<open>min\<close> by the attempt to match \<open>%u:%u\<close>.
\<close>

lemma scan_length:
  "scan fs s vs = (n, vals) \<Longrightarrow>
   length vs \<le> length vals \<and> (n = int (length vals) \<or> (n = EOF \<and> vals = []))"
proof (induction fs s vs rule: scan.induct)
  case (1 s vs)
  then show ?case by auto
next
  case (2 fs s vs)
  then show ?case by (cases "conv_u s") (auto split: if_splits)
next
  case (3 c fs s vs)
  then show ?case by (cases s) (auto split: if_splits)
qed

lemma scan_first:
  "scan (ConvU # fs) s [] = (n, vals) \<Longrightarrow> conv_u s = Matched x s' \<Longrightarrow> vals \<noteq> []"
  using scan_length [of fs s' "[x]" n vals] by auto

lemma scan_first_conv:
  "scan (ConvU # fs) s [] = (n, vals) \<Longrightarrow> 0 < n \<Longrightarrow> \<exists>x s'. conv_u s = Matched x s'"
  by (cases "conv_u s") (auto simp add: EOF_def split: if_splits)

lemma sscanf_into_vals:
  assumes "sscanf_into str fmt ts v = (n, v')" and "0 \<le> n"
  obtains vals where "sscanf str fmt = (n, vals)" and "length vals = nat n"
    and "v' = fold (\<lambda>(t, x). t x) (zip ts vals) v"
proof -
  obtain vals where s: "sscanf str fmt = (n, vals)" and v': "v' = fold (\<lambda>(t, x). t x) (zip ts vals) v"
    using assms(1) by (auto simp add: sscanf_into_def split: prod.splits)
  from s have "n = int (length vals) \<or> (n = EOF \<and> vals = [])"
    using scan_length [of "parse_format fmt" str "[]" n vals] by (simp add: sscanf_def)
  with assms(2) have "length vals = nat n" by (auto simp add: EOF_def)
  with s v' that show thesis by blast
qed

lemma sscanf_into_hmsf:
  assumes "sscanf_into str fmt [set_hour, set_min, set_sec, set_frac] v = (4, v')"
  shows "hour_v v' \<noteq> None \<and> min_v v' \<noteq> None \<and> sec_v v' \<noteq> None \<and> frac_v v' \<noteq> None"
proof -
  from assms obtain vals where l: "length vals = 4"
    and v': "v' = fold (\<lambda>(t, x). t x) (zip [set_hour, set_min, set_sec, set_frac] vals) v"
    by (rule sscanf_into_vals) auto
  from l obtain a b c d where "vals = [a, b, c, d]"
    by (auto simp add: length_Suc_conv numeral_eq_Suc)
  with v' show ?thesis
    by (simp add: set_hour_def set_min_def set_sec_def set_frac_def)
qed

lemma sscanf_into_hms:
  assumes "sscanf_into str fmt [set_hour, set_min, set_sec] v = (3, v')"
  shows "hour_v v' \<noteq> None \<and> min_v v' \<noteq> None \<and> sec_v v' \<noteq> None"
proof -
  from assms obtain vals where l: "length vals = 3"
    and v': "v' = fold (\<lambda>(t, x). t x) (zip [set_hour, set_min, set_sec] vals) v"
    by (rule sscanf_into_vals) auto
  from l obtain a b c where "vals = [a, b, c]"
    by (auto simp add: length_Suc_conv numeral_eq_Suc)
  with v' show ?thesis
    by (simp add: set_hour_def set_min_def set_sec_def)
qed

lemma sscanf_into_msf:
  assumes "sscanf_into str fmt [set_min, set_sec, set_frac] v = (3, v')"
  shows "min_v v' \<noteq> None \<and> sec_v v' \<noteq> None \<and> frac_v v' \<noteq> None"
proof -
  from assms obtain vals where l: "length vals = 3"
    and v': "v' = fold (\<lambda>(t, x). t x) (zip [set_min, set_sec, set_frac] vals) v"
    by (rule sscanf_into_vals) auto
  from l obtain a b c where "vals = [a, b, c]"
    by (auto simp add: length_Suc_conv numeral_eq_Suc)
  with v' show ?thesis
    by (simp add: set_frac_def set_min_def set_sec_def)
qed

lemma sscanf_into_ms:
  assumes "sscanf_into str fmt [set_min, set_sec] v = (2, v')"
  shows "min_v v' \<noteq> None \<and> sec_v v' \<noteq> None"
proof -
  from assms obtain vals where l: "length vals = 2"
    and v': "v' = fold (\<lambda>(t, x). t x) (zip [set_min, set_sec] vals) v"
    by (rule sscanf_into_vals) auto
  from l obtain a b where "vals = [a, b]"
    by (auto simp add: length_Suc_conv numeral_eq_Suc)
  with v' show ?thesis
    by (simp add: set_min_def set_sec_def)
qed

lemma sscanf_into_sf:
  assumes "sscanf_into str fmt [set_sec, set_frac] v = (2, v')"
  shows "sec_v v' \<noteq> None \<and> frac_v v' \<noteq> None \<and> (min_v v \<noteq> None \<longrightarrow> min_v v' \<noteq> None)"
proof -
  from assms obtain vals where l: "length vals = 2"
    and v': "v' = fold (\<lambda>(t, x). t x) (zip [set_sec, set_frac] vals) v"
    by (rule sscanf_into_vals) auto
  from l obtain a b where "vals = [a, b]"
    by (auto simp add: length_Suc_conv numeral_eq_Suc)
  with v' show ?thesis
    by (simp add: set_frac_def set_sec_def)
qed

lemma sscanf_into_s:
  assumes "sscanf_into str fmt [set_sec] v = (1, v')"
  shows "sec_v v' \<noteq> None"
proof -
  from assms obtain vals where l: "length vals = 1"
    and v': "v' = fold (\<lambda>(t, x). t x) (zip [set_sec] vals) v"
    by (rule sscanf_into_vals) auto
  from l obtain a where "vals = [a]"
    by (auto simp add: length_Suc_conv)
  with v' show ?thesis
    by (simp add: set_sec_def)
qed

lemma sscanf_into_sf_min:
  "sscanf_into str fmt [set_sec, set_frac] v = (n, v') \<Longrightarrow> min_v v' = min_v v"
proof -
  assume a: "sscanf_into str fmt [set_sec, set_frac] v = (n, v')"
  then obtain vals where v': "v' = fold (\<lambda>(t, x). t x) (zip [set_sec, set_frac] vals) v"
    by (auto simp add: sscanf_into_def split: prod.splits)
  show ?thesis
  proof (cases vals)
    case Nil
    with v' show ?thesis by simp
  next
    case (Cons a r)
    with v' show ?thesis by (cases r) (simp_all add: set_sec_def set_frac_def)
  qed
qed

lemma sscanf_into_first:
  assumes "sscanf_into str fmt ts v = (n, v')" and "0 < n"
    and "parse_format fmt = ConvU # fs"
  shows "\<exists>x s'. conv_u str = Matched x s'"
proof -
  from assms(1) obtain vals where "sscanf str fmt = (n, vals)"
    by (auto simp add: sscanf_into_def split: prod.splits)
  with assms(3) have "scan (ConvU # fs) str [] = (n, vals)" by (simp add: sscanf_def)
  from this assms(2) show ?thesis by (rule scan_first_conv)
qed

lemma sscanf_into_min_stored:
  assumes "sscanf_into str ''%u:%u'' [set_min, set_sec] v = (n, v')"
    and "conv_u str = Matched x s'"
  shows "min_v v' \<noteq> None"
proof -
  from assms(1) obtain vals where s: "sscanf str ''%u:%u'' = (n, vals)"
    and v': "v' = fold (\<lambda>(t, x). t x) (zip [set_min, set_sec] vals) v"
    by (auto simp add: sscanf_into_def split: prod.splits)
  from s have "scan (ConvU # [Lit (CHR '':''), ConvU]) str [] = (n, vals)"
    by (simp add: sscanf_def)
  from this assms(2) have "vals \<noteq> []" by (rule scan_first)
  then obtain a r where vals: "vals = a # r" by (cases vals) auto
  with v' show ?thesis by (cases r) (simp_all add: set_min_def set_sec_def)
qed

lemma lengthToMs_total: "\<exists>ms. lengthToMs str = Inr ms"
proof -
  let ?v0 = "\<lparr>hour_v = None, min_v = None, sec_v = None, frac_v = None\<rparr>"
  obtain s1 v1 where 1: "sscanf_into str ''%u:%u:%u.%u'' [set_hour, set_min, set_sec, set_frac] ?v0 = (s1, v1)"
    by fastforce
  obtain s2 v2 where 2: "(if s1 \<noteq> 4
                      then sscanf_into str ''%u:%u:%u,%u'' [set_hour, set_min, set_sec, set_frac] v1
                      else (s1, v1)) = (s2, v2)"
    by fastforce
  obtain s3 v3 where 3: "sscanf_into str ''%u:%u:%u'' [set_hour, set_min, set_sec] v2 = (s3, v3)"
    by fastforce
  obtain s4 v4 where 4: "sscanf_into str ''%u:%u.%u'' [set_min, set_sec, set_frac] v3 = (s4, v4)"
    by fastforce
  obtain s5 v5 where 5: "(if s4 \<noteq> 3
                      then sscanf_into str ''%u:%u,%u'' [set_min, set_sec, set_frac] v4
                      else (s4, v4)) = (s5, v5)"
    by fastforce
  obtain s6 v6 where 6: "sscanf_into str ''%u:%u'' [set_min, set_sec] v5 = (s6, v6)"
    by fastforce
  obtain s7 v7 where 7: "sscanf_into str ''%u.%u'' [set_sec, set_frac] v6 = (s7, v7)"
    by fastforce
  obtain s8 v8 where 8: "(if s7 \<noteq> 2
                      then sscanf_into str ''%u,%u'' [set_sec, set_frac] v7
                      else (s7, v7)) = (s8, v8)"
    by fastforce
  obtain s9 v9 where 9: "sscanf_into str ''%u'' [set_sec] v8 = (s9, v9)"
    by fastforce
  have b1: "s2 = 4 \<Longrightarrow> hour_v v2 \<noteq> None \<and> min_v v2 \<noteq> None \<and> sec_v v2 \<noteq> None \<and> frac_v v2 \<noteq> None"
    using 1 2 by (auto dest: sscanf_into_hmsf split: if_splits)
  have b2: "s3 = 3 \<Longrightarrow> hour_v v3 \<noteq> None \<and> min_v v3 \<noteq> None \<and> sec_v v3 \<noteq> None"
    using 3 by (auto dest: sscanf_into_hms)
  have b3: "s5 = 3 \<Longrightarrow> min_v v5 \<noteq> None \<and> sec_v v5 \<noteq> None \<and> frac_v v5 \<noteq> None"
    using 4 5 by (auto dest: sscanf_into_msf split: if_splits)
  have b4: "s6 = 2 \<Longrightarrow> min_v v6 \<noteq> None \<and> sec_v v6 \<noteq> None"
    using 6 by (auto dest: sscanf_into_ms)
  have b5: "min_v v8 \<noteq> None \<and> sec_v v8 \<noteq> None \<and> frac_v v8 \<noteq> None" if s8: "s8 = 2"
  proof -
    have "\<exists>x s'. conv_u str = Matched x s'"
    proof (cases "s7 = 2")
      case True
      with 7 show ?thesis by (auto intro: sscanf_into_first [where fs = "[Lit (CHR ''.''), ConvU]"])
    next
      case False
      with 8 s8 have "sscanf_into str ''%u,%u'' [set_sec, set_frac] v7 = (2, v8)" by simp
      then show ?thesis by (auto intro: sscanf_into_first [where fs = "[Lit (CHR '',''), ConvU]"])
    qed
    then have m6: "min_v v6 \<noteq> None" using 6 by (auto dest: sscanf_into_min_stored)
    have m7: "min_v v7 = min_v v6" using 7 by (rule sscanf_into_sf_min)
    have m8: "min_v v8 = min_v v7" using 8 by (auto dest: sscanf_into_sf_min split: if_splits)
    have "sec_v v8 \<noteq> None \<and> frac_v v8 \<noteq> None"
      using 7 8 s8 by (auto dest: sscanf_into_sf split: if_splits)
    with m6 m7 m8 show ?thesis by simp
  qed
  have b6: "s9 = 1 \<Longrightarrow> sec_v v9 \<noteq> None"
    using 9 by (auto dest: sscanf_into_s)
  have unf: "lengthToMs str =
     (if s2 = 4 then
           (case (hour_v v2, min_v v2, sec_v v2, frac_v v2) of
              (Some hour', Some min', Some sec', Some frac') \<Rightarrow>
                Inr ((hour' * 60 * 60 * 1000) + (min' * 60 * 1000) + (sec' * 1000) + (frac' * frac_adj_of str))
            | _ \<Rightarrow> Inl Uninitialized)
      else if s3 = 3 then
           (case (hour_v v3, min_v v3, sec_v v3) of
              (Some hour', Some min', Some sec') \<Rightarrow>
                Inr ((hour' * 60 * 60 * 1000) + (min' * 60 * 1000) + (sec' * 1000))
            | _ \<Rightarrow> Inl Uninitialized)
      else if s5 = 3 then
           (case (min_v v5, sec_v v5, frac_v v5) of
              (Some min', Some sec', Some frac') \<Rightarrow>
                Inr ((min' * 60 * 1000) + (sec' * 1000) + (frac' * frac_adj_of str))
            | _ \<Rightarrow> Inl Uninitialized)
      else if s6 = 2 then
           (case (min_v v6, sec_v v6) of
              (Some min', Some sec') \<Rightarrow> Inr ((min' * 60 * 1000) + (sec' * 1000))
            | _ \<Rightarrow> Inl Uninitialized)
      else if s8 = 2 then
           (case (min_v v8, sec_v v8, frac_v v8) of
              (Some min', Some sec', Some frac') \<Rightarrow>
                Inr ((min' * 60 * 1000) + (sec' * 1000) + (frac' * frac_adj_of str))
            | _ \<Rightarrow> Inl Uninitialized)
      else if s9 = 1 then
           (case sec_v v9 of Some sec' \<Rightarrow> Inr sec' | None \<Rightarrow> Inl Uninitialized)
      else Inr 0)"
    unfolding lengthToMs_def Let_def
    by (simp only: 1 2 3 4 5 6 7 8 9 prod.case)
  show ?thesis
  proof (cases "s2 = 4")
    case True
    with b1 unf show ?thesis by auto
  next
    case n2: False
    show ?thesis
    proof (cases "s3 = 3")
      case True
      with n2 b2 unf show ?thesis by auto
    next
      case n3: False
      show ?thesis
      proof (cases "s5 = 3")
        case True
        with n2 n3 b3 unf show ?thesis by auto
      next
        case n5: False
        show ?thesis
        proof (cases "s6 = 2")
          case True
          with n2 n3 n5 b4 unf show ?thesis by auto
        next
          case n6: False
          show ?thesis
          proof (cases "s8 = 2")
            case True
            with n2 n3 n5 n6 b5 unf show ?thesis by auto
          next
            case n8: False
            show ?thesis
            proof (cases "s9 = 1")
              case True
              with n2 n3 n5 n6 n8 b6 unf show ?thesis by auto
            next
              case False
              with n2 n3 n5 n6 n8 unf show ?thesis by simp
            qed
          qed
        qed
      qed
    qed
  qed
qed

lemma lengthToMs_min_sec_frac: "lengthToMs ''1:23.456'' = Inr 83456"
  by code_simp

lemma lengthToMs_hour_min_sec: "lengthToMs ''1:02:03'' = Inr 3723000"
  by code_simp

lemma lengthToMs_malformed: "lengthToMs ''abc'' = Inr 0"
  by code_simp

lemma lengthToMs_seconds: "lengthToMs ''83'' = Inr 83"
  by code_simp

lemma lengthToMs_out_of_range: "lengthToMs ''99999999999999999999'' = Inr 0xFFFFFFFF"
  by code_simp

text \<open>
  C7. The length parser is to give 83500 ms for \<open>83.5\<close>. The other three vectors of
  the claim hold (\<open>lengthToMs_min_sec_frac\<close>, \<open>lengthToMs_hour_min_sec\<close>,
  \<open>lengthToMs_malformed\<close>), but the branch for \<open>seconds.decimal\<close> adds
  \<open>min * 60 * 1000\<close>, and \<open>min\<close> holds the 83 stored by the earlier, failed attempt
  to match \<open>%u:%u\<close>: the result is 83 * 60000 + 83 * 1000 + 5 * 100.
\<close>

theorem lengthToMs_seconds_decimal:
  "lengthToMs ''83.5'' = Inr 5063500"
  by code_simp

lemma seekAndRead_full:
  "addr + n \<le> length (f_data f) \<Longrightarrow>
   IRpFile_seekAndRead f addr n =
     (take n (drop addr (f_data f)), f\<lparr>f_pos := addr + n, f_nreads := Suc (f_nreads f)\<rparr>)"
  by (simp add: IRpFile_seekAndRead_def IRpFile_read_def Let_def)

lemma parseTags_alloc:
  "tag_addr + 5 < length (f_data f) \<Longrightarrow>
   alloc_of (parseTags conv f tag_addr) = length (f_data f) - tag_addr - 5"
  apply (simp add: parseTags_def seekAndRead_full PSF_TAG_MAGIC_def IRpFile_size_def
      IRpFile_read_def Let_def split: prod.splits)
  apply arith
  done

text \<open>
  C8. The tag parser is to allocate at most a fixed maximum (16 KB, as the comment in
  \<open>parseTags\<close> says) for the tag data. The code allocates everything that follows
  the tag magic (\<open>parseTags_alloc\<close>): for a tag section at address 0 that consists of
  the magic \<open>[TAG]\<close> and 1000000 further bytes it allocates 1000000 bytes.
\<close>

theorem parseTags_alloc_unbounded:
  "alloc_of (parseTags (\<lambda>s. s)
      \<lparr>f_data = bytes_of ''[TAG]'' @ replicate 1000000 0x41, f_pos = 0, f_nreads = 0\<rparr> 0)
     = 1000000 \<and> (16 * 1024 :: nat) < 1000000"
  using parseTags_alloc
    [of 0 "\<lparr>f_data = bytes_of ''[TAG]'' @ replicate 1000000 0x41, f_pos = 0, f_nreads = 0\<rparr>"
        "\<lambda>s. s"]
  by (simp add: bytes_of_def)

lemma lines_of_nonempty: "lines_of p \<noteq> []"
  by (induction p) (auto split: list.splits)

lemma lines_of_unfold:
  "lines_of p =
     (let line = takeWhile (\<lambda>c. c \<noteq> CHR 0x0A) p
      in if length line < length p then line # lines_of (drop (length line + 1) p) else [line])"
proof (induction p)
  case Nil
  show ?case by simp
next
  case (Cons c cs)
  show ?case
  proof (cases "c = CHR 0x0A")
    case True
    then show ?thesis by simp
  next
    case False
    with Cons show ?thesis
      by (auto simp add: Let_def split: list.splits if_splits)
  qed
qed

lemma tag_pairs_Nil: "tag_pairs [] = []"
  by (simp add: tag_pairs_def List.map_filter_def tag_of_line_def)

lemma tag_pairs_unfold:
  "tag_pairs p =
     (case tag_of_line (takeWhile (\<lambda>c. c \<noteq> CHR 0x0A) p) of Some kv \<Rightarrow> [kv] | None \<Rightarrow> [])
       @ tag_pairs (drop (length (takeWhile (\<lambda>c. c \<noteq> CHR 0x0A) p) + 1) p)"
proof (cases "length (takeWhile (\<lambda>c. c \<noteq> CHR 0x0A) p) < length p")
  case True
  then show ?thesis
    by (subst tag_pairs_def, subst lines_of_unfold)
       (simp add: Let_def List.map_filter_def tag_pairs_def split: option.splits)
next
  case False
  then have "drop (length (takeWhile (\<lambda>c. c \<noteq> CHR 0x0A) p) + 1) p = []" by simp
  with False show ?thesis
    by (subst tag_pairs_def, subst lines_of_unfold)
       (simp add: Let_def List.map_filter_def tag_pairs_Nil split: option.splits)
qed

lemma tag_pairs_empty_line:
  assumes "p \<noteq> []" and "takeWhile (\<lambda>c. c \<noteq> CHR 0x0A) p = []"
  shows "tag_pairs p = tag_pairs (tl p)"
  using assms by (subst tag_pairs_unfold) (simp add: tag_of_line_def drop_Suc)

lemma first_value_map_of: "first_value k ps = map_of ps k"
  by (induction ps) auto

lemma map_of_emplace:
  "map_of (emplace k' v' kv) k =
     (case map_of kv k of Some v \<Rightarrow> Some v | None \<Rightarrow> if k = k' then Some v' else None)"
  by (auto simp add: emplace_def map_add_def split: option.splits)

lemma value_of_line:
  assumes "CHR ''='' \<in> set line"
  shows "drop (length (takeWhile (\<lambda>c. c \<noteq> CHR ''='') line) + 1) line
           = tl (dropWhile (\<lambda>c. c \<noteq> CHR ''='') line)"
  by (simp add: dropWhile_eq_drop drop_Suc tl_drop)

lemma stored_iff:
  "(CHR ''='' \<in> set line \<and> length (takeWhile (\<lambda>c. c \<noteq> CHR ''='') line) > 0
      \<and> int (length line) - int (length (takeWhile (\<lambda>c. c \<noteq> CHR ''='') line)) - 1 > 0)
   \<longleftrightarrow> tag_of_line line \<noteq> None"
proof (cases "CHR ''='' \<in> set line")
  case True
  define a where "a = length line"
  define b where "b = length (takeWhile (\<lambda>c. c \<noteq> CHR ''='') line)"
  have l: "length (tl (dropWhile (\<lambda>c. c \<noteq> CHR ''='') line)) = a - b - 1"
    by (simp add: dropWhile_eq_drop a_def b_def)
  have "tl (dropWhile (\<lambda>c. c \<noteq> CHR ''='') line) \<noteq> []
          \<longleftrightarrow> 0 < length (tl (dropWhile (\<lambda>c. c \<noteq> CHR ''='') line))"
    by (simp only: length_greater_0_conv)
  also have "\<dots> \<longleftrightarrow> int a - int b - 1 > 0"
    unfolding l by arith
  finally have v: "tl (dropWhile (\<lambda>c. c \<noteq> CHR ''='') line) \<noteq> []
          \<longleftrightarrow> int a - int b - 1 > 0" .
  have k: "takeWhile (\<lambda>c. c \<noteq> CHR ''='') line \<noteq> [] \<longleftrightarrow> 0 < b"
    by (simp only: b_def length_greater_0_conv)
  from True v k show ?thesis
    unfolding tag_of_line_def Let_def a_def [symmetric] b_def [symmetric]
    by (simp add: b_def)
next
  case False
  then show ?thesis by (simp add: tag_of_line_def Let_def)
qed

lemma tag_loop_Nil: "tag_loop [] kv u = (kv, u)"
  by (simp add: tag_loop.simps)

lemma tag_loop_empty_line:
  "p \<noteq> [] \<Longrightarrow> takeWhile (\<lambda>c. c \<noteq> CHR 0x0A) p = [] \<Longrightarrow> tag_loop p kv u = tag_loop (tl p) kv u"
  by (subst tag_loop.simps) simp

lemma tag_loop_line:
  assumes "p \<noteq> []" and "takeWhile (\<lambda>c. c \<noteq> CHR 0x0A) p = line" and "line \<noteq> []"
  shows "tag_loop p kv u =
           tag_loop (drop (length line + 1) p)
             (case tag_of_line line of Some (key, v) \<Rightarrow> emplace key v kv | None \<Rightarrow> kv)
             (case tag_of_line line of Some (key, v) \<Rightarrow> key = ''utf8'' \<or> u | None \<Rightarrow> u)"
proof (cases "tag_of_line line")
  case None
  then have "\<not> (CHR ''='' \<in> set line \<and> length (takeWhile (\<lambda>c. c \<noteq> CHR ''='') line) > 0
      \<and> int (length line) - int (length (takeWhile (\<lambda>c. c \<noteq> CHR ''='') line)) - 1 > 0)"
    by (simp only: stored_iff) simp
  with assms None show ?thesis
    by (subst tag_loop.simps) (auto simp add: Let_def)
next
  case (Some kv')
  then have st: "CHR ''='' \<in> set line \<and> length (takeWhile (\<lambda>c. c \<noteq> CHR ''='') line) > 0
      \<and> int (length line) - int (length (takeWhile (\<lambda>c. c \<noteq> CHR ''='') line)) - 1 > 0"
    by (simp only: stored_iff) simp
  from Some st have kv': "kv' = (map tolower_c (takeWhile (\<lambda>c. c \<noteq> CHR ''='') line),
                              tl (dropWhile (\<lambda>c. c \<noteq> CHR ''='') line))"
    by (auto simp add: tag_of_line_def Let_def split: if_splits)
  have tk: "take (length (takeWhile (\<lambda>c. c \<noteq> CHR ''='') line)) line
              = takeWhile (\<lambda>c. c \<noteq> CHR ''='') line"
    by (rule takeWhile_eq_take [symmetric])
  have dr: "drop (Suc (length (takeWhile (\<lambda>c. c \<noteq> CHR ''='') line))) line
              = tl (dropWhile (\<lambda>c. c \<noteq> CHR ''='') line)"
    using value_of_line [of line] st by simp
  from assms st show ?thesis
    by (subst tag_loop.simps) (simp add: Let_def Some kv' tk dr)
qed

lemma tag_loop_map_of:
  "map_of (fst (tag_loop p kv u)) k =
     (case map_of kv k of Some v \<Rightarrow> Some v | None \<Rightarrow> first_value k (tag_pairs p))"
proof (induction "length p" arbitrary: p kv u rule: less_induct)
  case less
  show ?case
  proof (cases "p = []")
    case True
    then show ?thesis by (simp add: tag_loop_Nil tag_pairs_Nil split: option.splits)
  next
    case False
    define line where "line = takeWhile (\<lambda>c. c \<noteq> CHR 0x0A) p"
    show ?thesis
    proof (cases "line = []")
      case True
      with False have e: "tag_loop p kv u = tag_loop (tl p) kv u" "tag_pairs p = tag_pairs (tl p)"
        by (simp_all add: line_def tag_loop_empty_line tag_pairs_empty_line)
      have lt: "length (tl p) < length p" using False by simp
      show ?thesis by (simp only: e less [OF lt])
    next
      case nonempty: False
      have sh: "length (drop (length line + 1) p) < length p" using False by simp
      have tp: "tag_pairs p =
          (case tag_of_line line of Some kv \<Rightarrow> [kv] | None \<Rightarrow> []) @ tag_pairs (drop (length line + 1) p)"
        unfolding line_def by (rule tag_pairs_unfold)
      have st: "tag_loop p kv u =
           tag_loop (drop (length line + 1) p)
             (case tag_of_line line of Some (key, v) \<Rightarrow> emplace key v kv | None \<Rightarrow> kv)
             (case tag_of_line line of Some (key, v) \<Rightarrow> key = ''utf8'' \<or> u | None \<Rightarrow> u)"
        using False nonempty by (intro tag_loop_line) (simp_all add: line_def)
      show ?thesis
        unfolding st tp less [OF sh]
        by (auto simp add: map_of_emplace split: option.splits)
    qed
  qed
qed

lemma tag_loop_utf8:
  "snd (tag_loop p kv u) \<longleftrightarrow> u \<or> first_value ''utf8'' (tag_pairs p) \<noteq> None"
proof (induction "length p" arbitrary: p kv u rule: less_induct)
  case less
  show ?case
  proof (cases "p = []")
    case True
    then show ?thesis by (simp add: tag_loop_Nil tag_pairs_Nil)
  next
    case False
    define line where "line = takeWhile (\<lambda>c. c \<noteq> CHR 0x0A) p"
    show ?thesis
    proof (cases "line = []")
      case True
      with False have e: "tag_loop p kv u = tag_loop (tl p) kv u" "tag_pairs p = tag_pairs (tl p)"
        by (simp_all add: line_def tag_loop_empty_line tag_pairs_empty_line)
      have lt: "length (tl p) < length p" using False by simp
      show ?thesis by (simp only: e less [OF lt])
    next
      case nonempty: False
      have sh: "length (drop (length line + 1) p) < length p" using False by simp
      have tp: "tag_pairs p =
          (case tag_of_line line of Some kv \<Rightarrow> [kv] | None \<Rightarrow> []) @ tag_pairs (drop (length line + 1) p)"
        unfolding line_def by (rule tag_pairs_unfold)
      have st: "tag_loop p kv u =
           tag_loop (drop (length line + 1) p)
             (case tag_of_line line of Some (key, v) \<Rightarrow> emplace key v kv | None \<Rightarrow> kv)
             (case tag_of_line line of Some (key, v) \<Rightarrow> key = ''utf8'' \<or> u | None \<Rightarrow> u)"
        using False nonempty by (intro tag_loop_line) (simp_all add: line_def)
      show ?thesis
        unfolding st tp less [OF sh]
        by (auto split: option.splits)
    qed
  qed
qed

lemma psf_tags_example_first:
  "first_value ''title'' (tag_pairs psf_tags_example) = Some ''first''"
  by code_simp

text \<open>
  C9, as the code has it. The tag loop inserts with \<open>emplace\<close>, which leaves an
  existing entry alone. Started with the empty map, as \<open>parseTags\<close> starts it, the loop
  retains for every key the value of the first tag of the data with that key, however
  many tags with the key follow; started with any map, a key that is in the map keeps
  its value, and a key that is not receives the value of its first tag.
\<close>

theorem tag_loop_first_wins:
  "map_of (fst (tag_loop p [] u)) k = first_value k (tag_pairs p)
   \<and> map_of (fst (tag_loop p kv u)) k =
       (case map_of kv k of Some v \<Rightarrow> Some v | None \<Rightarrow> first_value k (tag_pairs p))"
  by (simp add: tag_loop_map_of)

theorem tag_loop_first_wins_witness:
  "map_of (fst (tag_loop psf_tags_example [] False)) ''title'' = Some ''first''"
  using tag_loop_first_wins [of psf_tags_example False "''title''" "[]"]
  by (simp add: psf_tags_example_first)

text \<open>
  C9 as stated fails: with the lines \<open>Title=first\<close> and \<open>title=second\<close> in the tag
  section, the value that \<open>parseTags\<close> returns under \<open>title\<close> is \<open>first\<close>, while the
  last tag with that key has the value \<open>second\<close>.
\<close>

theorem parseTags_duplicate_key:
  "map_of (kv_of (parseTags (\<lambda>s. s)
      \<lparr>f_data = bytes_of (''[TAG]'' @ psf_tags_example), f_pos = 0, f_nreads = 0\<rparr> 0)) ''title''
     = Some ''first''
   \<and> last_value ''title'' (tag_pairs psf_tags_example) = Some ''second''"
  by code_simp

lemma length_PSF_TAG_MAGIC: "length PSF_TAG_MAGIC = 5"
  by (simp add: PSF_TAG_MAGIC_def)

lemma parseTags_data: "f_data (file_of (parseTags conv f a)) = f_data f"
  by (simp add: parseTags_def IRpFile_seekAndRead_def IRpFile_read_def Let_def split: prod.splits)

lemma parseTags_nreads: "f_nreads f < f_nreads (file_of (parseTags conv f a))"
  by (simp add: parseTags_def IRpFile_seekAndRead_def IRpFile_read_def Let_def split: prod.splits)

lemma parseTags_kv:
  "kv_of (parseTags conv f a) =
     (if a + 5 < length (f_data f)
      then (case tag_loop (chars_of (drop (a + 5) (f_data f))) [] False of
              (kv, isUtf8) \<Rightarrow> if \<not> isUtf8 then map (\<lambda>(k, v). (k, conv (c_str v))) kv else kv)
      else [])"
proof (cases "a + 5 < length (f_data f)")
  case True
  then have "nat (int (length (f_data f)) - int a - 5) = length (f_data f) - (a + 5)"
    by arith
  with True show ?thesis
    by (simp add: parseTags_def seekAndRead_full length_PSF_TAG_MAGIC IRpFile_size_def
        IRpFile_read_def Let_def split: prod.splits)
next
  case False
  then have "int (length (f_data f)) - int a - 5 \<le> 0" by arith
  with False show ?thesis
    by (simp add: parseTags_def IRpFile_seekAndRead_def length_PSF_TAG_MAGIC IRpFile_size_def
        IRpFile_read_def Let_def split: prod.splits)
qed

lemma parseTags_kv_data:
  "f_data g = f_data f \<Longrightarrow> kv_of (parseTags conv g a) = kv_of (parseTags conv f a)"
  by (simp add: parseTags_kv)

lemma parseTags_first_value:
  assumes "a + 5 < length (f_data f)"
  shows "map_of (kv_of (parseTags conv f a)) k =
           map_option
             (\<lambda>v. if first_value ''utf8'' (tag_pairs (chars_of (drop (a + 5) (f_data f)))) \<noteq> None
                  then v else conv (c_str v))
             (first_value k (tag_pairs (chars_of (drop (a + 5) (f_data f)))))"
proof -
  let ?data = "chars_of (drop (a + 5) (f_data f))"
  obtain kv isUtf8 where t: "tag_loop ?data [] False = (kv, isUtf8)" by fastforce
  have m: "map_of kv k = first_value k (tag_pairs ?data)"
    using tag_loop_map_of [of ?data "[]" False k] t by simp
  have u: "isUtf8 \<longleftrightarrow> first_value ''utf8'' (tag_pairs ?data) \<noteq> None"
    using tag_loop_utf8 [of ?data "[]" False] t by simp
  have "kv_of (parseTags conv f a) =
          (if \<not> isUtf8 then map (\<lambda>(k, v). (k, conv (c_str v))) kv else kv)"
    using assms t by (simp add: parseTags_kv)
  then show ?thesis
    by (simp add: map_of_map m u option.map_ident)
qed

lemma length_meta_total: "\<exists>md'. length_meta tags md = Inr md'"
proof (cases "map_of tags ''length''")
  case None
  then show ?thesis by (simp add: length_meta_def)
next
  case (Some v)
  obtain ms where "lengthToMs (c_str v) = Inr ms" using lengthToMs_total by blast
  with Some show ?thesis by (simp add: length_meta_def)
qed

lemma PSF_loadMetaData_total: "\<exists>r. PSF_loadMetaData be conv d = Inr r"
proof -
  have "\<And>tags md e. length_meta tags md \<noteq> Inl e"
    using length_meta_total by (metis Inl_Inr_False)
  then show ?thesis
    by (auto simp add: PSF_loadMetaData_def Let_def split: option.splits sum.splits)
qed

lemma PSF_loadMetaData_empty:
  assumes "file' d = Some f" and "isValid d" and "metaData d = None"
    and "kv_of (parseTags conv f (tag_addr_of be (psfHeader d))) = []"
  shows "PSF_loadMetaData be conv d
           = Inr (- EIO, d\<lparr>file' := Some (file_of (parseTags conv f (tag_addr_of be (psfHeader d))))\<rparr>)"
  using assms by (simp add: PSF_loadMetaData_def Let_def)

lemma tag_field_nonempty: "fs \<noteq> [] \<Longrightarrow> tag_field tags k t fs \<noteq> []"
  by (simp add: tag_field_def addField_string_def split: option.splits)

lemma tag_field_hd: "fs \<noteq> [] \<Longrightarrow> hd (tag_field tags k t fs) = hd fs"
  by (simp add: tag_field_def addField_string_def split: option.splits)

lemma PSF_tag_fields_nonempty: "fs \<noteq> [] \<Longrightarrow> PSF_tag_fields ver tags fs \<noteq> []"
  by (simp add: PSF_tag_fields_def Let_def tag_field_nonempty addField_string_def
      split: option.splits)

lemma PSF_tag_fields_hd: "fs \<noteq> [] \<Longrightarrow> hd (PSF_tag_fields ver tags fs) = hd fs"
  by (simp add: PSF_tag_fields_def Let_def tag_field_nonempty tag_field_hd addField_string_def
      split: option.splits)

lemma PSF_loadFieldData_System:
  assumes "file' d = Some f" and "isValid d" and "fields' d = []"
  shows "1 \<le> fst (PSF_loadFieldData be conv d)
         \<and> fst (hd (fields' (snd (PSF_loadFieldData be conv d)))) = ''System''"
proof -
  define fs0 where "fs0 = (case map_of sysname_lkup_tbl (version (psfHeader d)) of
                         Some sysname \<Rightarrow> addField_string ''System'' sysname (fields' d)
                       | None \<Rightarrow>
                           addField_string ''System''
                             (''Unknown (0x'' @ pad0 2 (hex (unat (version (psfHeader d)))) @ '')'') (fields' d))"
  have fs0: "fs0 \<noteq> [] \<and> fst (hd fs0) = ''System''"
    using assms(3) by (simp add: fs0_def addField_string_def split: option.splits)
  define tags where "tags = parseTags conv f (tag_addr_of be (psfHeader d))"
  define fs where "fs = (if kv_of tags \<noteq> [] then PSF_tag_fields (version (psfHeader d)) (kv_of tags) fs0 else fs0)"
  have fs: "fs \<noteq> [] \<and> fst (hd fs) = ''System''"
    using fs0 by (simp add: fs_def PSF_tag_fields_nonempty PSF_tag_fields_hd)
  have "PSF_loadFieldData be conv d = (int (length fs), d\<lparr>file' := Some (file_of tags), fields' := fs\<rparr>)"
    using assms by (simp add: PSF_loadFieldData_def Let_def fs_def tags_def fs0_def)
  with fs show ?thesis by (cases fs) simp_all
qed

lemma psf_header_only_ctor:
  "PSF_ctor False (Some psf_header_only) =
     \<lparr>file' = Some (psf_header_only\<lparr>f_pos := 16, f_nreads := 1\<rparr>), isValid = True,
      fields' = [], metaData = None,
      psfHeader = \<lparr>magic = bytes_of ''PSF'', version = 1, reserved_size = 0,
                   compressed_prg_length = 0, compressed_prg_crc32 = 0\<rparr>\<rparr>"
  by code_simp

lemma psf_header_only_tags:
  "kv_of (parseTags (\<lambda>s. s) (psf_header_only\<lparr>f_pos := 16, f_nreads := 1\<rparr>)
     (tag_addr_of False (psfHeader (PSF_ctor False (Some psf_header_only))))) = []"
  by code_simp

text \<open>
  C10. For a PSF instance that is valid, with its file open, and whose tag section
  gives no entries, \<open>loadMetaData\<close> returns \<open>-EIO\<close> and the metadata object is not
  created; the call has read from the file, and a second call reads again and returns
  \<open>-EIO\<close> again instead of a cached result; \<open>loadFieldData\<close> on the same instance
  succeeds, its first field being the System field.
\<close>

theorem PSF_loadMetaData_no_tags:
  assumes "file' d = Some f" and "isValid d" and "metaData d = None" and "fields' d = []"
    and "kv_of (parseTags conv f (tag_addr_of be (psfHeader d))) = []"
  shows "let f1 = file_of (parseTags conv f (tag_addr_of be (psfHeader d)));
             d1 = d\<lparr>file' := Some f1\<rparr>;
             f2 = file_of (parseTags conv f1 (tag_addr_of be (psfHeader d)))
         in PSF_loadMetaData be conv d = Inr (- EIO, d1) \<and> - EIO < 0
          \<and> metaData d1 = None \<and> isValid d1
          \<and> PSF_loadMetaData be conv d1 = Inr (- EIO, d1\<lparr>file' := Some f2\<rparr>)
          \<and> f_nreads f < f_nreads f1 \<and> f_nreads f1 < f_nreads f2
          \<and> 1 \<le> fst (PSF_loadFieldData be conv d1)
          \<and> fst (hd (fields' (snd (PSF_loadFieldData be conv d1)))) = ''System''"
proof -
  define a where "a = tag_addr_of be (psfHeader d)"
  define f1 where "f1 = file_of (parseTags conv f a)"
  define d1 where "d1 = d\<lparr>file' := Some f1\<rparr>"
  define f2 where "f2 = file_of (parseTags conv f1 a)"
  have first: "PSF_loadMetaData be conv d = Inr (- EIO, d1)"
    using PSF_loadMetaData_empty [OF assms(1,2,3,5)] by (simp add: d1_def f1_def a_def)
  have d1: "file' d1 = Some f1" "isValid d1" "metaData d1 = None" "fields' d1 = []"
    "psfHeader d1 = psfHeader d"
    using assms by (simp_all add: d1_def)
  have "f_data f1 = f_data f" by (simp add: f1_def parseTags_data)
  then have "kv_of (parseTags conv f1 a) = []"
    using assms(5) parseTags_kv_data [of f1 f conv a] by (simp add: a_def)
  then have second: "PSF_loadMetaData be conv d1 = Inr (- EIO, d1\<lparr>file' := Some f2\<rparr>)"
    using PSF_loadMetaData_empty [OF d1(1,2,3), of conv be] by (simp add: d1(5) a_def f2_def)
  have n1: "f_nreads f < f_nreads f1" by (simp add: f1_def parseTags_nreads)
  have n2: "f_nreads f1 < f_nreads f2" by (simp add: f2_def parseTags_nreads)
  have flds: "1 \<le> fst (PSF_loadFieldData be conv d1)
         \<and> fst (hd (fields' (snd (PSF_loadFieldData be conv d1)))) = ''System''"
    by (rule PSF_loadFieldData_System [OF d1(1,2,4)])
  have "- EIO < 0" by (simp add: EIO_def)
  with first second n1 n2 flds d1 show ?thesis
    unfolding Let_def a_def [symmetric] f1_def [symmetric] d1_def [symmetric] f2_def [symmetric]
    by simp
qed

theorem PSF_loadMetaData_no_tags_witness:
  "file' (PSF_ctor False (Some psf_header_only)) = Some (psf_header_only\<lparr>f_pos := 16, f_nreads := 1\<rparr>)
   \<and> isValid (PSF_ctor False (Some psf_header_only))
   \<and> PSF_loadMetaData False (\<lambda>s. s) (PSF_ctor False (Some psf_header_only))
       = Inr (- EIO, (PSF_ctor False (Some psf_header_only))
            \<lparr>file' := Some (file_of (parseTags (\<lambda>s. s) (psf_header_only\<lparr>f_pos := 16, f_nreads := 1\<rparr>)
               (tag_addr_of False (psfHeader (PSF_ctor False (Some psf_header_only))))))\<rparr>)"
proof -
  let ?d = "PSF_ctor False (Some psf_header_only)"
  let ?f = "psf_header_only\<lparr>f_pos := 16, f_nreads := 1\<rparr>"
  have h1: "file' ?d = Some ?f" by (simp add: psf_header_only_ctor)
  have h2: "isValid ?d" by (simp add: psf_header_only_ctor)
  have h3: "metaData ?d = None" by (simp add: psf_header_only_ctor)
  have h4: "fields' ?d = []" by (simp add: psf_header_only_ctor)
  note h5 = psf_header_only_tags
  from PSF_loadMetaData_no_tags [OF h1 h2 h3 h4 h5] h1 h2 show ?thesis
    by (simp add: Let_def)
qed

section \<open>Properties of the byte-order functions\<close>

lemma bit_u8: "bit (b :: u8) n \<Longrightarrow> n < 8"
  using bit_imp_le_length [of b n] by simp

lemma bit_u16_of: "bit (u16_of hi lo) n \<longleftrightarrow> (if n < 8 then bit lo n else bit hi (n - 8))"
  unfolding u16_of_def
  by (auto simp add: bit_simps dest: bit_u8)

lemma bit_u32_of:
  "bit (u32_of b3 b2 b1 b0) n \<longleftrightarrow>
     (if n < 8 then bit b0 n else if n < 16 then bit b1 (n - 8)
      else if n < 24 then bit b2 (n - 16) else bit b3 (n - 24))"
  unfolding u32_of_def
  by (auto simp add: bit_simps dest: bit_u8)

lemma bit_FF0000: "bit (0xFF0000 :: int) n \<longleftrightarrow> 16 \<le> n \<and> n < 24"
proof -
  have eq: "(0xFF0000 :: int) = push_bit 16 (mask 8)" by (simp add: mask_eq_exp_minus_1)
  show ?thesis
    apply (subst eq)
    apply (simp only: bit_push_bit_iff bit_mask_iff)
    apply auto
    done
qed

lemma bit_FF00: "bit (0xFF00 :: int) n \<longleftrightarrow> 8 \<le> n \<and> n < 16"
proof -
  have eq: "(0xFF00 :: int) = push_bit 8 (mask 8)" by (simp add: mask_eq_exp_minus_1)
  show ?thesis
    apply (subst eq)
    apply (simp only: bit_push_bit_iff bit_mask_iff)
    apply auto
    done
qed

lemma swab16_u16_of: "swab16 (u16_of a b) = u16_of b a"
  apply (rule bit_word_eqI)
  apply (simp add: swab16_def bit_simps bit_u16_of)
  apply (auto dest: bit_u8)
  done

lemma swab32_u32_of: "swab32 (u32_of a b c d) = u32_of d c b a"
  apply (rule bit_word_eqI)
  apply (simp add: swab32_def bit_simps bit_u32_of bit_FF00 bit_FF0000)
  apply (auto simp add: bit_FF00 bit_FF0000 dest: bit_u8)
  done

lemma UNSWAP2_u32_of: "UNSWAP2 (u32_of a b c d) = u32_of c d a b"
  apply (rule bit_word_eqI)
  apply (simp add: UNSWAP2_def bit_simps bit_u32_of)
  apply (auto dest: bit_u8)
  done

lemma byte0_u32_of: "ucast (u32_of a b c d) = d"
  by (rule bit_word_eqI) (auto simp add: bit_simps bit_u32_of dest: bit_u8)

lemma byte1_u32_of: "ucast (drop_bit 8 (u32_of a b c d)) = c"
  by (rule bit_word_eqI) (auto simp add: bit_simps bit_u32_of dest: bit_u8)

lemma byte2_u32_of: "ucast (drop_bit 16 (u32_of a b c d)) = b"
  by (rule bit_word_eqI) (auto simp add: bit_simps bit_u32_of dest: bit_u8)

lemma byte3_u32_of: "ucast (drop_bit 24 (u32_of a b c d)) = a"
  by (rule bit_word_eqI) (auto simp add: bit_simps bit_u32_of dest: bit_u8)

lemma byte0_u16_of: "ucast (u16_of a b) = b"
  by (rule bit_word_eqI) (auto simp add: bit_simps bit_u16_of dest: bit_u8)

lemma byte1_u16_of: "ucast (drop_bit 8 (u16_of a b)) = a"
  by (rule bit_word_eqI) (auto simp add: bit_simps bit_u16_of dest: bit_u8)

lemma u32_of_eq_iff:
  "u32_of a b c d = u32_of a' b' c' d' \<longleftrightarrow> a = a' \<and> b = b' \<and> c = c' \<and> d = d'"
proof
  assume eq: "u32_of a b c d = u32_of a' b' c' d'"
  have "a = a'" using arg_cong [OF eq, of "\<lambda>x. (ucast (drop_bit 24 x) :: u8)"]
    by (simp add: byte3_u32_of)
  moreover have "b = b'" using arg_cong [OF eq, of "\<lambda>x. (ucast (drop_bit 16 x) :: u8)"]
    by (simp add: byte2_u32_of)
  moreover have "c = c'" using arg_cong [OF eq, of "\<lambda>x. (ucast (drop_bit 8 x) :: u8)"]
    by (simp add: byte1_u32_of)
  moreover have "d = d'" using arg_cong [OF eq, of "\<lambda>x. (ucast x :: u8)"]
    by (simp add: byte0_u32_of)
  ultimately show "a = a' \<and> b = b' \<and> c = c' \<and> d = d'" by simp
qed simp

lemma u16_of_eq_iff: "u16_of a b = u16_of a' b' \<longleftrightarrow> a = a' \<and> b = b'"
proof
  assume eq: "u16_of a b = u16_of a' b'"
  have "a = a'" using arg_cong [OF eq, of "\<lambda>x. (ucast (drop_bit 8 x) :: u8)"]
    by (simp add: byte1_u16_of)
  moreover have "b = b'" using arg_cong [OF eq, of "\<lambda>x. (ucast x :: u8)"]
    by (simp add: byte0_u16_of)
  ultimately show "a = a' \<and> b = b'" by simp
qed simp

lemma wr16_swab16: "wr16 be (swab16 (host16 be a b)) = [b, a]"
  by (simp add: wr16_def host16_def swab16_u16_of byte0_u16_of byte1_u16_of)

lemma wr32_swab32: "wr32 be (swab32 (host32 be a b c d)) = [d, c, b, a]"
  by (simp add: wr32_def host32_def swab32_u32_of byte0_u32_of byte1_u32_of byte2_u32_of
      byte3_u32_of)

lemma wr32_UNSWAP2: "wr32 be (UNSWAP2 (host32 be a b c d)) = [c, d, a, b]"
  by (simp add: wr32_def host32_def UNSWAP2_u32_of byte0_u32_of byte1_u32_of byte2_u32_of
      byte3_u32_of)

lemma be32_to_cpu_rd32: "be32_to_cpu be (rd32 be bs i) = rd32 True bs i"
  by (simp add: be32_to_cpu_def rd32_def host32_def swab32_u32_of)

lemma read_rewind:
  "IRpFile_read (IRpFile_rewind f) n =
     (take n (f_data f), f\<lparr>f_pos := min (length (f_data f)) n, f_nreads := Suc (f_nreads f)\<rparr>)"
  by (simp add: IRpFile_read_def IRpFile_rewind_def Let_def)

lemma seekAndRead_eq:
  "IRpFile_seekAndRead f a n =
     (take n (drop a (f_data f)),
      f\<lparr>f_pos := a + min (length (f_data f) - a) n, f_nreads := Suc (f_nreads f)\<rparr>)"
  by (simp add: IRpFile_seekAndRead_def IRpFile_read_def Let_def)

lemma min_full: "0 < n \<Longrightarrow> min (l - a) n = n \<longleftrightarrow> a + n \<le> (l :: nat)"
  by auto

lemma struct_bytes_full: "length got = n \<Longrightarrow> struct_bytes n got = got"
  by (simp add: struct_bytes_def)

section \<open>Properties of the BRSTM reader\<close>

lemma BRSTM_MAGIC_bytes: "BRSTM_MAGIC = u32_of 0x52 0x53 0x54 0x4D"
  by (simp add: BRSTM_MAGIC_def u32_of_def)


lemma zero_u32_bytes: "(0 :: u32) = u32_of 0 0 0 0"
  by (simp add: u32_of_def)

lemma rd32_magic: "rd32 be p i = cpu_to_be32 be BRSTM_MAGIC \<longleftrightarrow> rd32 True p i = BRSTM_MAGIC"
  by (auto simp add: rd32_def host32_def cpu_to_be32_def BRSTM_MAGIC_bytes swab32_u32_of
      u32_of_eq_iff)

lemma rd32_LE_eq_0: "rd32 False p i = 0 \<longleftrightarrow> rd32 True p i = 0"
  by (auto simp add: rd32_def host32_def u32_of_eq_iff zero_u32_bytes)

lemma u16_FEFF: "(0xFEFF :: u16) = u16_of 0xFE 0xFF" "(0xFFFE :: u16) = u16_of 0xFF 0xFE"
  by (simp_all add: u16_of_def)

lemma rd16_LE_bom:
  "rd16 False p i = 0xFEFF \<longleftrightarrow> rd16 True p i = 0xFFFE"
  "rd16 False p i = 0xFFFE \<longleftrightarrow> rd16 True p i = 0xFEFF"
  unfolding u16_FEFF rd16_def host16_def by (auto simp only: u16_of_eq_iff if_True if_False)

lemma rd16_swab: "swab16 (rd16 be p i) = rd16 (\<not> be) p i"
  by (simp add: rd16_def host16_def swab16_u16_of)

text \<open>
  C3. \<open>BRSTM::isRomSupported_static\<close> returns a variant id \<open>\<ge> 0\<close>, namely 0, exactly
  when the header buffer is given at offset 0 with at least \<open>sizeof(BRSTM_Header)\<close>
  bytes, the BRSTM magic matches, the byte-order mark has one of its two permitted
  values, the chunk count in the byte order of the mark is at least 2, and the offsets
  and sizes of HEAD and DATA are all non-zero; in every other case, a null \<open>info\<close> and
  a null buffer included, it returns -1. This holds on a host of either byte order.
\<close>

theorem BRSTM_isRomSupported_static_spec:
  "BRSTM_isRomSupported_static be info = (if BRSTM_detect_spec info then 0 else - 1)"
proof (cases info)
  case None
  then show ?thesis
    by (simp add: BRSTM_isRomSupported_static_def BRSTM_detect_spec_def)
next
  case (Some i)
  show ?thesis
  proof (cases "hdr_pData i")
    case None
    with Some show ?thesis
      by (simp add: BRSTM_isRomSupported_static_def BRSTM_detect_spec_def)
  next
    case (Some p)
    show ?thesis
    proof (cases be)
      case True
      with Some \<open>info = Some i\<close> show ?thesis
        by (simp add: BRSTM_isRomSupported_static_def BRSTM_detect_spec_def Let_def
            as_BRSTM_Header_def as_chunk_ref_def cpu_to_be32_def rd16_swab
            BRSTM_BOM_HOST_def BRSTM_BOM_SWAP_def not_le not_less)
    next
      case False
      with Some \<open>info = Some i\<close> show ?thesis
        by (simp add: BRSTM_isRomSupported_static_def BRSTM_detect_spec_def Let_def
            as_BRSTM_Header_def as_chunk_ref_def rd32_magic rd32_LE_eq_0 rd16_LE_bom rd16_swab
            BRSTM_BOM_HOST_def BRSTM_BOM_SWAP_def not_le not_less)
    qed
  qed
qed

lemma brstm_example_detect:
  "BRSTM_detect_spec (Some \<lparr>hdr_addr = 0, hdr_size = 64,
      hdr_pData = Some (take 64 (f_data brstm_example))\<rparr>)"
  by code_simp

theorem BRSTM_isRomSupported_static_spec_witness:
  "BRSTM_detect_spec (Some \<lparr>hdr_addr = 0, hdr_size = 64,
      hdr_pData = Some (take 64 (f_data brstm_example))\<rparr>)
   \<and> BRSTM_isRomSupported_static False (Some \<lparr>hdr_addr = 0, hdr_size = 64,
      hdr_pData = Some (take 64 (f_data brstm_example))\<rparr>) = 0
   \<and> BRSTM_isRomSupported_static True None = - 1"
  using brstm_example_detect
    BRSTM_isRomSupported_static_spec [of False "Some \<lparr>hdr_addr = 0, hdr_size = 64,
      hdr_pData = Some (take 64 (f_data brstm_example))\<rparr>"]
    BRSTM_isRomSupported_static_spec [of True None]
  by (simp add: BRSTM_detect_spec_def)

lemma brstm32_to_cpu_eq: "brstm32_to_cpu d x = to_cpu32 (needsByteswap d) x"
  by (simp add: brstm32_to_cpu_def to_cpu32_def)

lemma sizeof_pos: "0 < sizeof_BRSTM_Header" "0 < sizeof_BRSTM_HEAD_Header"
  "0 < sizeof_BRSTM_HEAD_Chunk1"
  by (simp_all add: sizeof_BRSTM_Header_def sizeof_BRSTM_HEAD_Header_def
      sizeof_BRSTM_HEAD_Chunk1_def)

lemma BRSTM_ctor_HEAD_result:
  assumes "isValid d" and "fields' d = []" and "metaData d = None"
  shows "fields' (BRSTM_ctor_HEAD be f1 d) = []"
    and "metaData (BRSTM_ctor_HEAD be f1 d) = None"
    and "isValid (BRSTM_ctor_HEAD be f1 d)
           \<longleftrightarrow> BRSTM_HEAD_checks be (needsByteswap d) (f_data f1) (brstmHeader d)"
    and "file' (BRSTM_ctor_HEAD be f1 d) \<noteq> None
           \<longleftrightarrow> BRSTM_HEAD_checks be (needsByteswap d) (f_data f1) (brstmHeader d)"
  using assms
  by (simp_all add: BRSTM_ctor_HEAD_def BRSTM_HEAD_checks_def Let_def seekAndRead_eq
      brstm32_to_cpu_eq min_full sizeof_pos struct_bytes_full not_le)


lemma BRSTM_ctor_result:
  shows "fields' (BRSTM_ctor be (Some f)) = []"
    and "metaData (BRSTM_ctor be (Some f)) = None"
    and "isValid (BRSTM_ctor be (Some f)) \<longleftrightarrow> BRSTM_ctor_checks be f"
    and "file' (BRSTM_ctor be (Some f)) \<noteq> None \<longleftrightarrow> BRSTM_ctor_checks be f"
proof -
  define buf where "buf = take sizeof_BRSTM_Header (f_data f)"
  define f1 where "f1 = f\<lparr>f_pos := min (length (f_data f)) sizeof_BRSTM_Header,
                            f_nreads := Suc (f_nreads f)\<rparr>"
  define ok where "ok \<longleftrightarrow> 0 \<le> BRSTM_isRomSupported_static be
                 (Some \<lparr>hdr_addr = 0, hdr_size = word_of_nat sizeof_BRSTM_Header,
                        hdr_pData = Some buf\<rparr>)"
  define d2 where "d2 = (BRSTMPrivate_init (Some f))
                     \<lparr>file' := Some f1, brstmHeader := as_BRSTM_Header be buf,
                      isValid := True,
                      needsByteswap := (bom (as_BRSTM_Header be buf) = BRSTM_BOM_SWAP)\<rparr>"
  have d2: "isValid d2" "fields' d2 = []" "metaData d2 = None"
    "needsByteswap d2 = (bom (as_BRSTM_Header be buf) = BRSTM_BOM_SWAP)"
    "brstmHeader d2 = as_BRSTM_Header be buf"
    by (simp_all add: d2_def BRSTMPrivate_init_def)
  have data1: "f_data f1 = f_data f" by (simp add: f1_def)
  consider (short) "length (f_data f) < sizeof_BRSTM_Header"
    | (unsupported) "sizeof_BRSTM_Header \<le> length (f_data f)" "\<not> ok"
    | (supported) "sizeof_BRSTM_Header \<le> length (f_data f)" "ok"
    by linarith
  then have "fields' (BRSTM_ctor be (Some f)) = []
      \<and> metaData (BRSTM_ctor be (Some f)) = None
      \<and> (isValid (BRSTM_ctor be (Some f)) \<longleftrightarrow> BRSTM_ctor_checks be f)
      \<and> (file' (BRSTM_ctor be (Some f)) \<noteq> None \<longleftrightarrow> BRSTM_ctor_checks be f)"
  proof cases
    case short
    then show ?thesis
      by (simp add: BRSTM_ctor_def BRSTM_ctor_checks_def BRSTMPrivate_init_def read_rewind Let_def)
  next
    case unsupported
    then have "struct_bytes sizeof_BRSTM_Header buf = buf"
      by (simp add: struct_bytes_full buf_def)
    with unsupported show ?thesis
      by (simp add: BRSTM_ctor_def BRSTM_ctor_checks_def BRSTMPrivate_init_def read_rewind
          Let_def ok_def buf_def [symmetric])
  next
    case supported
    then have lb: "length buf = sizeof_BRSTM_Header"
      by (simp add: buf_def)
    then have sb: "struct_bytes sizeof_BRSTM_Header buf = buf"
      by (simp add: struct_bytes_full)
    from supported have "min (length (f_data f)) sizeof_BRSTM_Header = sizeof_BRSTM_Header"
      by simp
    with supported sb lb have "BRSTM_ctor be (Some f) = BRSTM_ctor_HEAD be f1 d2"
      by (simp add: BRSTM_ctor_def BRSTMPrivate_init_def read_rewind Let_def ok_def
          buf_def [symmetric] f1_def d2_def)
    with BRSTM_ctor_HEAD_result [OF d2(1-3), of be f1] supported show ?thesis
      by (simp add: BRSTM_ctor_checks_def Let_def d2(4,5) data1 ok_def buf_def [symmetric])
  qed
  then show "fields' (BRSTM_ctor be (Some f)) = []"
    and "metaData (BRSTM_ctor be (Some f)) = None"
    and "isValid (BRSTM_ctor be (Some f)) \<longleftrightarrow> BRSTM_ctor_checks be f"
    and "file' (BRSTM_ctor be (Some f)) \<noteq> None \<longleftrightarrow> BRSTM_ctor_checks be f"
    by blast+
qed

lemma BRSTM_loads_closed:
  assumes "file' d = None" and "fields' d = []" and "metaData d = None"
  shows "BRSTM_loadFieldData be d = (- EBADF, d)" and "BRSTM_loadMetaData d = Inr (- EBADF, d)"
  using assms by (simp_all add: BRSTM_loadFieldData_def BRSTM_loadMetaData_def)

text \<open>
  C2. For every byte source given to the BRSTM constructor: if the primary-header read
  is short, detection fails, a bounds check of a chunk offset or size fails, the HEAD
  magic does not match, or a chunk read is short, then the instance is not valid, its
  file reference is null, it has no fields and no metadata object, and
  \<open>loadFieldData\<close> and \<open>loadMetaData\<close> return the negative error code \<open>-EBADF\<close>
  and leave it so.
\<close>

theorem BRSTM_ctor_failure:
  assumes "\<not> BRSTM_ctor_checks be f"
  shows "let d = BRSTM_ctor be (Some f)
         in \<not> isValid d \<and> file' d = None \<and> fields' d = [] \<and> metaData d = None
            \<and> BRSTM_loadFieldData be d = (- EBADF, d)
            \<and> BRSTM_loadMetaData d = Inr (- EBADF, d) \<and> - EBADF < 0"
proof -
  note r = BRSTM_ctor_result [of be f]
  have nofile: "file' (BRSTM_ctor be (Some f)) = None" using r(4) assms by simp
  have "- EBADF < 0" by (simp add: EBADF_def)
  with r(1-3) assms nofile BRSTM_loads_closed(1) [OF nofile r(1) r(2), of be]
    BRSTM_loads_closed(2) [OF nofile r(1) r(2)]
  show ?thesis by (simp add: Let_def)
qed

lemma brstm_truncated_checks: "\<not> BRSTM_ctor_checks False brstm_truncated"
  by code_simp

theorem BRSTM_ctor_failure_witness:
  "\<not> BRSTM_ctor_checks False brstm_truncated
   \<and> \<not> isValid (BRSTM_ctor False (Some brstm_truncated))
   \<and> file' (BRSTM_ctor False (Some brstm_truncated)) = None
   \<and> fst (BRSTM_loadFieldData False (BRSTM_ctor False (Some brstm_truncated))) = - EBADF"
  using brstm_truncated_checks BRSTM_ctor_failure [OF brstm_truncated_checks]
  by (simp add: Let_def)

lemma BRSTM_ctor_success:
  "BRSTM_ctor_checks be f \<Longrightarrow>
     isValid (BRSTM_ctor be (Some f)) \<and> file' (BRSTM_ctor be (Some f)) \<noteq> None"
  using BRSTM_ctor_result(3,4) [of be f] by simp

lemma BRSTM_ctor_no_file:
  "BRSTM_ctor be None = BRSTMPrivate_init None"
  by (simp add: BRSTM_ctor_def BRSTMPrivate_init_def)

lemma ucast_u16_u32_eq_0: "(ucast (x :: u16) :: u32) = 0 \<longleftrightarrow> x = 0"
proof
  assume "(ucast x :: u32) = 0"
  then have "(ucast (ucast x :: u32) :: u16) = ucast (0 :: u32)" by simp
  then show "x = 0" by (simp add: ucast_up_ucast_id is_up)
qed simp

lemma BRSTM_loadFieldData_first:
  assumes "file' d = Some f" and "isValid d" and "fields' d = []"
  shows "fst (BRSTM_loadFieldData be d) = int (length (fields' (snd (BRSTM_loadFieldData be d))))"
    and "length (fields' (snd (BRSTM_loadFieldData be d)))
           = (if loop_flag (headChunk1 d) \<noteq> 0 then 8 else 7)"
    and "snd (BRSTM_loadFieldData be d) = d\<lparr>fields' := fields' (snd (BRSTM_loadFieldData be d))\<rparr>"
  using assms
  by (simp_all add: BRSTM_loadFieldData_def Let_def addField_string_def addField_string_numeric_def)

lemma BRSTM_loadFieldData_again:
  "fields' d \<noteq> [] \<Longrightarrow> BRSTM_loadFieldData be d = (0, d)"
  by (simp add: BRSTM_loadFieldData_def)

lemma convSampleToMs_Inr: "rate \<noteq> 0 \<Longrightarrow> \<exists>ms. convSampleToMs sample rate = Inr ms"
  by (simp add: convSampleToMs_def Let_def)

lemma BRSTM_loadMetaData_first:
  assumes "file' d = Some f" and "isValid d" and "metaData d = None"
    and "brstm16_to_cpu d (sample_rate (headChunk1 d)) \<noteq> 0"
  shows "\<exists>md. BRSTM_loadMetaData d = Inr (3, d\<lparr>metaData := Some md\<rparr>)"
proof -
  have "(ucast (brstm16_to_cpu d (sample_rate (headChunk1 d))) :: u32) \<noteq> 0"
    using assms(4) by (simp add: ucast_u16_u32_eq_0)
  then obtain ms where "convSampleToMs (brstm32_to_cpu d (sample_count (headChunk1 d)))
       (ucast (brstm16_to_cpu d (sample_rate (headChunk1 d)))) = Inr ms"
    using convSampleToMs_Inr by blast
  then show ?thesis
    using assms(1-3)
    by (auto simp add: BRSTM_loadMetaData_def Let_def addMetaData_integer_def)
qed

lemma BRSTM_loadMetaData_again:
  "metaData d \<noteq> None \<Longrightarrow> BRSTM_loadMetaData d = Inr (0, d)"
  by (simp add: BRSTM_loadMetaData_def)

lemma BRSTM_loadMetaData_zero_rate:
  assumes "file' d = Some f" and "isValid d" and "metaData d = None"
    and "brstm16_to_cpu d (sample_rate (headChunk1 d)) = 0"
  shows "BRSTM_loadMetaData d = Inl DivByZero"
  using assms
  by (simp add: BRSTM_loadMetaData_def Let_def convSampleToMs_def)

text \<open>
  C1, as the code has it. For a valid BRSTM instance with its file open, the first
  \<open>loadFieldData\<close> returns the number of fields it has added, 7 or 8, and a second
  call returns 0, not that count, and leaves the instance as it is; the first
  \<open>loadMetaData\<close> returns 3 (unless the sample rate is zero, where it divides by
  zero), and a second call returns 0 and leaves the instance as it is. Neither call
  touches the file, so the second call parses nothing and reads no bytes.
\<close>

theorem BRSTM_load_twice:
  assumes "file' d = Some f" and "isValid d" and "fields' d = []" and "metaData d = None"
  shows "(case BRSTM_loadFieldData be d of (n, d1) \<Rightarrow>
            n = int (length (fields' d1)) \<and> (n = 7 \<or> n = 8)
            \<and> BRSTM_loadFieldData be d1 = (0, d1) \<and> file' d1 = file' d)
       \<and> (case BRSTM_loadMetaData d of
            Inl e \<Rightarrow> brstm16_to_cpu d (sample_rate (headChunk1 d)) = 0
          | Inr (n, d2) \<Rightarrow>
              n = 3 \<and> BRSTM_loadMetaData d2 = Inr (0, d2) \<and> file' d2 = file' d)"
proof -
  define d1 where "d1 = snd (BRSTM_loadFieldData be d)"
  note first = BRSTM_loadFieldData_first [OF assms(1-3), of be, folded d1_def]
  have "fields' d1 \<noteq> []" using first(2) by (auto split: if_splits)
  then have again: "BRSTM_loadFieldData be d1 = (0, d1)"
    by (rule BRSTM_loadFieldData_again)
  have "file' d1 = file' d" by (subst first(3)) simp
  with first again have part1: "case BRSTM_loadFieldData be d of (n, d1) \<Rightarrow>
            n = int (length (fields' d1)) \<and> (n = 7 \<or> n = 8)
            \<and> BRSTM_loadFieldData be d1 = (0, d1) \<and> file' d1 = file' d"
    unfolding case_prod_beta d1_def [symmetric] by (auto split: if_splits)
  have part2: "case BRSTM_loadMetaData d of
            Inl e \<Rightarrow> brstm16_to_cpu d (sample_rate (headChunk1 d)) = 0
          | Inr (n, d2) \<Rightarrow>
              n = 3 \<and> BRSTM_loadMetaData d2 = Inr (0, d2) \<and> file' d2 = file' d"
  proof (cases "brstm16_to_cpu d (sample_rate (headChunk1 d)) = 0")
    case True
    then show ?thesis
      using BRSTM_loadMetaData_zero_rate [OF assms(1,2,4)] by simp
  next
    case False
    then obtain md where md: "BRSTM_loadMetaData d = Inr (3, d\<lparr>metaData := Some md\<rparr>)"
      using BRSTM_loadMetaData_first [OF assms(1,2,4)] by blast
    have "BRSTM_loadMetaData (d\<lparr>metaData := Some md\<rparr>) = Inr (0, d\<lparr>metaData := Some md\<rparr>)"
      by (simp add: BRSTM_loadMetaData_again)
    with md show ?thesis by simp
  qed
  from part1 part2 show ?thesis by blast
qed

lemma brstm_example_ctor:
  "BRSTM_ctor False (Some brstm_example) =
     \<lparr>file' = Some (brstm_example\<lparr>f_pos := 148, f_nreads := 3\<rparr>), isValid = True,
      fields' = [], metaData = None,
      brstmHeader = \<lparr>magic_RSTM = 0x4D545352, bom = 0xFFFE, version_major = 1,
         version_minor = 0, file_size = 0xB4000000, header_size = 0x4000, chunk_count = 0x200,
         head = \<lparr>offset = 0x40000000, size' = 0x54000000\<rparr>,
         adpc = \<lparr>offset = 0, size' = 0\<rparr>,
         data = \<lparr>offset = 0xA0000000, size' = 0x14000000\<rparr>\<rparr>,
      headChunk1 = \<lparr>codec = 2, loop_flag = 0, channel_count = 2, sample_rate = 0x44AC,
         loop_start = 0, sample_count = 0xF05F2800\<rparr>,
      needsByteswap = True\<rparr>"
  by code_simp

theorem BRSTM_load_twice_witness:
  "file' (BRSTM_ctor False (Some brstm_example))
      = Some (brstm_example\<lparr>f_pos := 148, f_nreads := 3\<rparr>)
   \<and> isValid (BRSTM_ctor False (Some brstm_example))
   \<and> fields' (BRSTM_ctor False (Some brstm_example)) = []
   \<and> metaData (BRSTM_ctor False (Some brstm_example)) = None
   \<and> (case BRSTM_loadFieldData False (BRSTM_ctor False (Some brstm_example)) of (n, d1) \<Rightarrow>
            n = int (length (fields' d1)) \<and> (n = 7 \<or> n = 8)
            \<and> BRSTM_loadFieldData False d1 = (0, d1)
            \<and> file' d1 = file' (BRSTM_ctor False (Some brstm_example)))"
proof -
  let ?d = "BRSTM_ctor False (Some brstm_example)"
  have h1: "file' ?d = Some (brstm_example\<lparr>f_pos := 148, f_nreads := 3\<rparr>)"
    by (simp add: brstm_example_ctor)
  have h2: "isValid ?d" by (simp add: brstm_example_ctor)
  have h3: "fields' ?d = []" by (simp add: brstm_example_ctor)
  have h4: "metaData ?d = None" by (simp add: brstm_example_ctor)
  note c = conjunct1 [OF BRSTM_load_twice [OF h1 h2 h3 h4, of False]]
  show ?thesis by (intro conjI h1 h2 h3 h4 c)
qed

text \<open>
  C1 as stated fails: for the example file the first \<open>loadFieldData\<close> returns 7 and
  the second returns 0, which is not the count the first call returned.
\<close>

theorem BRSTM_loadFieldData_second_call:
  "fst (BRSTM_loadFieldData False (BRSTM_ctor False (Some brstm_example))) = 7
   \<and> fst (BRSTM_loadFieldData False
             (snd (BRSTM_loadFieldData False (BRSTM_ctor False (Some brstm_example))))) = 0"
proof -
  let ?d = "BRSTM_ctor False (Some brstm_example)"
  have h1: "file' ?d = Some (brstm_example\<lparr>f_pos := 148, f_nreads := 3\<rparr>)"
    by (simp add: brstm_example_ctor)
  have h2: "isValid ?d" by (simp add: brstm_example_ctor)
  have h3: "fields' ?d = []" by (simp add: brstm_example_ctor)
  have lf: "loop_flag (headChunk1 ?d) = 0" by (simp add: brstm_example_ctor)
  note first = BRSTM_loadFieldData_first [OF h1 h2 h3, of False]
  have seven: "fst (BRSTM_loadFieldData False ?d) = 7"
    using first(1,2) lf by simp
  have "fields' (snd (BRSTM_loadFieldData False ?d)) \<noteq> []"
    using first(2) lf by auto
  then have "BRSTM_loadFieldData False (snd (BRSTM_loadFieldData False ?d))
               = (0, snd (BRSTM_loadFieldData False ?d))"
    by (rule BRSTM_loadFieldData_again)
  with seven show ?thesis by simp
qed

section \<open>Properties of the N64 reader\<close>

lemma byte_swap_16_array_bytes: "byte_swap_16_array be bs = swap_bytes16 bs"
  unfolding byte_swap_16_array_def
  by (induction bs rule: swap_bytes16.induct) (simp_all add: wr16_swab16)

lemma byte_swap_32_array_bytes: "byte_swap_32_array be bs = swap_bytes32 bs"
  unfolding byte_swap_32_array_def
  by (induction bs rule: swap_bytes32.induct) (simp_all add: wr32_swab32)

lemma UNSWAP2_array_bytes: "map_u32 be UNSWAP2 bs = swap_halves32 bs"
  by (induction bs rule: swap_halves32.induct) (simp_all add: wr32_UNSWAP2)

lemma swap_bytes16_twice: "swap_bytes16 (swap_bytes16 bs) = bs"
  by (induction bs rule: swap_bytes16.induct) simp_all

lemma swap_halves32_twice: "swap_halves32 (swap_halves32 bs) = bs"
  by (induction bs rule: swap_halves32.induct) simp_all

lemma swap_bytes32_twice: "swap_bytes32 (swap_bytes32 bs) = bs"
  by (induction bs rule: swap_bytes32.induct) simp_all

lemma length_swap_bytes16: "length (swap_bytes16 bs) = length bs"
  by (induction bs rule: swap_bytes16.induct) simp_all

lemma length_swap_halves32: "length (swap_halves32 bs) = length bs"
  by (induction bs rule: swap_halves32.induct) simp_all

lemma length_swap_bytes32: "length (swap_bytes32 bs) = length bs"
  by (induction bs rule: swap_bytes32.induct) simp_all

lemma length_encode_variant: "length (encode_variant v h) = length h"
  by (cases v) (simp_all add: length_swap_bytes16 length_swap_halves32 length_swap_bytes32)

lemma N64_byteswap_header_as: "N64_byteswap_header be (as_N64_RomHeader be z) = as_N64_RomHeader True z"
  by (simp add: N64_byteswap_header_def as_N64_RomHeader_def be32_to_cpu_rd32)

lemma rd64_magic_prefix:
  "rd64 be (b0 # b1 # b2 # b3 # b4 # b5 # b6 # b7 # r) 0 =
     (if be then u64_of (u32_of b0 b1 b2 b3) (u32_of b4 b5 b6 b7)
      else u64_of (u32_of b7 b6 b5 b4) (u32_of b3 b2 b1 b0))"
  by (simp add: rd64_def rd32_def host32_def byte_at_def)


lemma magic_values:
  "u64_of (u32_of 0x80 0x37 0x12 0x40) (u32_of 0x00 0x00 0x00 0x0F) = N64_Z64_MAGIC"
  "u64_of (u32_of 0x37 0x80 0x40 0x12) (u32_of 0x00 0x00 0x0F 0x00) = N64_V64_MAGIC"
  "u64_of (u32_of 0x12 0x40 0x80 0x37) (u32_of 0x00 0x0F 0x00 0x00) = N64_SWAP2_MAGIC"
  "u64_of (u32_of 0x40 0x12 0x37 0x80) (u32_of 0x0F 0x00 0x00 0x00) = N64_LE32_MAGIC"
  by (simp_all add: u64_of_def u32_of_def N64_Z64_MAGIC_def N64_V64_MAGIC_def
      N64_SWAP2_MAGIC_def N64_LE32_MAGIC_def)

lemma magic_values_swapped:
  "u64_of (u32_of 0x0F 0x00 0x00 0x00) (u32_of 0x40 0x12 0x37 0x80) = swab64 N64_Z64_MAGIC"
  "u64_of (u32_of 0x00 0x0F 0x00 0x00) (u32_of 0x12 0x40 0x80 0x37) = swab64 N64_V64_MAGIC"
  "u64_of (u32_of 0x00 0x00 0x0F 0x00) (u32_of 0x37 0x80 0x40 0x12) = swab64 N64_SWAP2_MAGIC"
  "u64_of (u32_of 0x00 0x00 0x00 0x0F) (u32_of 0x80 0x37 0x12 0x40) = swab64 N64_LE32_MAGIC"
  by (simp_all add: u64_of_def u32_of_def swab64_def swab32_def N64_Z64_MAGIC_def
      N64_V64_MAGIC_def N64_SWAP2_MAGIC_def N64_LE32_MAGIC_def)

lemma magic_distinct:
  "N64_Z64_MAGIC \<noteq> N64_V64_MAGIC" "N64_Z64_MAGIC \<noteq> N64_SWAP2_MAGIC"
  "N64_Z64_MAGIC \<noteq> N64_LE32_MAGIC" "N64_V64_MAGIC \<noteq> N64_SWAP2_MAGIC"
  "N64_V64_MAGIC \<noteq> N64_LE32_MAGIC" "N64_SWAP2_MAGIC \<noteq> N64_LE32_MAGIC"
  "swab64 N64_Z64_MAGIC \<noteq> swab64 N64_V64_MAGIC" "swab64 N64_Z64_MAGIC \<noteq> swab64 N64_SWAP2_MAGIC"
  "swab64 N64_Z64_MAGIC \<noteq> swab64 N64_LE32_MAGIC" "swab64 N64_V64_MAGIC \<noteq> swab64 N64_SWAP2_MAGIC"
  "swab64 N64_V64_MAGIC \<noteq> swab64 N64_LE32_MAGIC" "swab64 N64_SWAP2_MAGIC \<noteq> swab64 N64_LE32_MAGIC"
  by (simp_all add: u64_of_def swab64_def swab32_def N64_Z64_MAGIC_def
      N64_V64_MAGIC_def N64_SWAP2_MAGIC_def N64_LE32_MAGIC_def)

lemma N64_detect_encoded:
  "N64_isRomSupported_static be
     (Some \<lparr>hdr_addr = 0, hdr_size = word_of_nat sizeof_N64_RomHeader,
            hdr_pData = Some (encode_variant v (z64_magic_bytes @ r))\<rparr>) = rom_type_of v"
proof -
  have sz: "unat (word_of_nat sizeof_N64_RomHeader :: u32) = sizeof_N64_RomHeader"
    by (simp add: sizeof_N64_RomHeader_def)
  show ?thesis
    using magic_distinct magic_distinct [symmetric]
    by (cases v; cases be)
      (simp_all add: N64_isRomSupported_static_def sz z64_magic_bytes_def rd64_magic_prefix
        cpu_to_be64_def magic_values magic_values_swapped Let_def)
qed

lemma rom_type_distinct:
  "ROM_TYPE_Z64 \<noteq> ROM_TYPE_V64" "ROM_TYPE_Z64 \<noteq> ROM_TYPE_SWAP2" "ROM_TYPE_Z64 \<noteq> ROM_TYPE_LE32"
  "ROM_TYPE_V64 \<noteq> ROM_TYPE_SWAP2" "ROM_TYPE_V64 \<noteq> ROM_TYPE_LE32"
  "ROM_TYPE_SWAP2 \<noteq> ROM_TYPE_LE32"
  by (simp_all add: ROM_TYPE_Z64_def ROM_TYPE_V64_def ROM_TYPE_SWAP2_def ROM_TYPE_LE32_def)

text \<open>
  C4. For each of the four container variants, on a host of either byte order: when a
  canonical header (64 bytes in Z64 order, beginning with the Z64 magic) is encoded in
  the variant and the constructor reads it, the variant is recognised by its magic, the
  instance is valid, and the header it holds has exactly the fields of the canonical
  header. The transform applied is none, the 16-bit byte swap, the exchange of 16-bit
  halves, or the 32-bit byte swap (\<open>byte_swap_16_array_bytes\<close>,
  \<open>UNSWAP2_array_bytes\<close>, \<open>byte_swap_32_array_bytes\<close>).
\<close>

theorem N64_roundtrip:
  assumes "length h = sizeof_N64_RomHeader" and "take 8 h = z64_magic_bytes"
  shows "let d = N64_ctor be (Some \<lparr>f_data = encode_variant v h @ rest, f_pos = pos, f_nreads = n\<rparr>)
         in isValid d \<and> romType d = rom_type_of v \<and> romHeader d = as_N64_RomHeader True h"
proof -
  define u where "u = encode_variant v h"
  have lu: "length u = sizeof_N64_RomHeader"
    by (simp add: u_def length_encode_variant assms(1))
  have "h = z64_magic_bytes @ drop 8 h"
    using assms(2) append_take_drop_id [of 8 h] by simp
  then have det: "N64_isRomSupported_static be
     (Some \<lparr>hdr_addr = 0, hdr_size = word_of_nat sizeof_N64_RomHeader,
            hdr_pData = Some u\<rparr>) = rom_type_of v"
    unfolding u_def using N64_detect_encoded [of be v "drop 8 h"] by simp
  have tr: "v = Z64 \<Longrightarrow> u = h" "v = V64 \<Longrightarrow> byte_swap_16_array be u = h"
    "v = SWAP2 \<Longrightarrow> map_u32 be UNSWAP2 u = h" "v = LE32 \<Longrightarrow> byte_swap_32_array be u = h"
    by (simp_all add: u_def byte_swap_16_array_bytes byte_swap_32_array_bytes
        UNSWAP2_array_bytes swap_bytes16_twice swap_halves32_twice swap_bytes32_twice)
  have det': "v = Z64 \<Longrightarrow> N64_isRomSupported_static be
     (Some \<lparr>hdr_addr = 0, hdr_size = word_of_nat sizeof_N64_RomHeader,
            hdr_pData = Some h\<rparr>) = ROM_TYPE_Z64"
    using det tr(1) by simp
  have "N64_ctor be (Some \<lparr>f_data = u @ rest, f_pos = pos, f_nreads = n\<rparr>)
          = (N64Private_init (Some \<lparr>f_data = u @ rest, f_pos = pos, f_nreads = n\<rparr>))
              \<lparr>file' := Some \<lparr>f_data = u @ rest, f_pos = sizeof_N64_RomHeader, f_nreads = Suc n\<rparr>,
               romType := rom_type_of v, isValid := True,
               romHeader := N64_byteswap_header be (as_N64_RomHeader be h)\<rparr>"
    using lu rom_type_distinct rom_type_distinct [symmetric]
    by (cases v)
      (simp_all add: N64_ctor_def N64Private_init_def read_rewind struct_bytes_full Let_def det det' tr)
  then show ?thesis
    by (simp add: u_def [symmetric] Let_def N64_byteswap_header_as)
qed

theorem N64_roundtrip_witness:
  "length n64_example_header = sizeof_N64_RomHeader
   \<and> take 8 n64_example_header = z64_magic_bytes
   \<and> (let d = N64_ctor False (Some \<lparr>f_data = encode_variant V64 n64_example_header @ [],
                                      f_pos = 0, f_nreads = 0\<rparr>)
      in isValid d \<and> romType d = rom_type_of V64
         \<and> romHeader d = as_N64_RomHeader True n64_example_header)"
proof -
  have h1: "length n64_example_header = sizeof_N64_RomHeader"
    by (simp add: n64_example_header_def z64_magic_bytes_def sizeof_N64_RomHeader_def)
  have h2: "take 8 n64_example_header = z64_magic_bytes"
    by (simp add: n64_example_header_def z64_magic_bytes_def)
  note c = N64_roundtrip [OF h1 h2, of False V64 "[]" 0 0]
  show ?thesis by (intro conjI h1 h2 c)
qed

end
